theory Spec2Isabelle
  imports Complex_Main "HOL-Library.Word"
begin

unbundle bit_operations_syntax

section \<open>C library: characters, \<^verbatim>\<open>atoi\<close> and \<^verbatim>\<open>printf\<close> of integers\<close>

text \<open>
  The target is a 32-bit ARM board (an Adafruit Feather M0), so \<^verbatim>\<open>int\<close> and
  \<^verbatim>\<open>long\<close> are both 32 bits wide. A C string is a \<^typ>\<open>string\<close> here, read up to
  its first NUL byte.
\<close>

definition cstr :: "string \<Rightarrow> string" where
  "cstr s = takeWhile (\<lambda>c. c \<noteq> CHR 0x00) s"

definition isSpace :: "char \<Rightarrow> bool" where
  "isSpace c = (c = CHR '' '' \<or> c = CHR 0x09 \<or> c = CHR 0x0A \<or> c = CHR 0x0B
                \<or> c = CHR 0x0C \<or> c = CHR 0x0D)"

definition isDigit :: "char \<Rightarrow> bool" where
  "isDigit c = (c \<in> set ''0123456789'')"

definition digit_value :: "char \<Rightarrow> int" where
  "digit_value c = int (of_char c) - 48"

definition LONG_MAX :: int where "LONG_MAX = 2147483647"
definition LONG_MIN :: int where "LONG_MIN = - 2147483648"

text \<open>The digit loop of \<^verbatim>\<open>strtol\<close>: it stops at the first character that is no digit.\<close>

fun strtol_digits :: "int \<Rightarrow> string \<Rightarrow> int" where
  "strtol_digits acc [] = acc"
| "strtol_digits acc (c # cs) =
     (if isDigit c then strtol_digits (acc * 10 + digit_value c) cs else acc)"

text \<open>
  \<^verbatim>\<open>atoi(s)\<close> is \<^verbatim>\<open>(int) strtol(s, NULL, 10)\<close>: leading white space is skipped, one sign
  is accepted, and a value out of range saturates.
\<close>

definition atoi :: "string \<Rightarrow> int" where
  "atoi s =
     (case dropWhile isSpace s of
        [] \<Rightarrow> 0
      | c # r \<Rightarrow>
          if c = CHR ''-'' then max LONG_MIN (- strtol_digits 0 r)
          else if c = CHR ''+'' then min LONG_MAX (strtol_digits 0 r)
          else min LONG_MAX (strtol_digits 0 (c # r)))"

text \<open>Decimal output, as \<^verbatim>\<open>%d\<close>, \<^verbatim>\<open>%ld\<close> and \<^verbatim>\<open>%02d\<close> produce it.\<close>

definition digit_char :: "nat \<Rightarrow> char" where
  "digit_char d = ''0123456789'' ! d"

fun dec_nat :: "nat \<Rightarrow> string" where
  "dec_nat n = (if n < 10 then [digit_char n] else dec_nat (n div 10) @ [digit_char (n mod 10)])"

declare dec_nat.simps [simp del]

definition fmt_d :: "int \<Rightarrow> string" where
  "fmt_d i = (if i < 0 then CHR ''-'' # dec_nat (nat (- i)) else dec_nat (nat i))"

definition fmt_02d :: "nat \<Rightarrow> string" where
  "fmt_02d n = (if n < 10 then CHR ''0'' # dec_nat n else dec_nat n)"

section \<open>Pins and the hardware trace\<close>

text \<open>
  The firmware drives relays through \<^verbatim>\<open>digitalWrite\<close> and waits with \<^verbatim>\<open>delay\<close>.
  Neither returns anything, so the model records each call, in program order, in a trace.
  Pin numbers are those of \<^verbatim>\<open>pins.h\<close>.
\<close>

definition CAMERA_SHUTTER_PIN :: nat where "CAMERA_SHUTTER_PIN = 10"
definition LASER_PIN :: nat where "LASER_PIN = 11"
definition STARTSTOP_SWITCH_PIN :: nat where "STARTSTOP_SWITCH_PIN = 14"
definition CAMERA_POWER_SET_PIN :: nat where "CAMERA_POWER_SET_PIN = 15"
definition INTENSIFIER_POWER_SET_PIN :: nat where "INTENSIFIER_POWER_SET_PIN = 17"
definition INTENSIFIER_POWER_UNSET_PIN :: nat where "INTENSIFIER_POWER_UNSET_PIN = 18"

lemmas pin_defs = CAMERA_SHUTTER_PIN_def LASER_PIN_def STARTSTOP_SWITCH_PIN_def
  CAMERA_POWER_SET_PIN_def INTENSIFIER_POWER_SET_PIN_def INTENSIFIER_POWER_UNSET_PIN_def

datatype level = LOW | HIGH

datatype hw_event = DigitalWrite nat level | Delay nat

section \<open>Camera.h\<close>

definition CAMERA_SHUTTER_DELAY :: nat where "CAMERA_SHUTTER_DELAY = 50"
definition CAMERA_RELAY_DELAY :: nat where "CAMERA_RELAY_DELAY = 10"
definition CAMERA_POWERUP_DELAY :: nat where "CAMERA_POWERUP_DELAY = 15000"

text \<open>
  The class has one field, \<^verbatim>\<open>powerStatus\<close> (usage tracking is compiled out:
  \<^verbatim>\<open>ENABLE_USAGE_TRACKING\<close> is commented out in \<^verbatim>\<open>pltlogger.h\<close>). The trace of
  hardware calls is carried next to it.
\<close>

record camera =
  powerStatus :: bool
  hw :: "hw_event list"

text \<open>A relay is latched by raising its pin, waiting, and lowering it again.\<close>

definition relay_pulse :: "nat \<Rightarrow> hw_event list" where
  "relay_pulse p = [DigitalWrite p HIGH, Delay CAMERA_RELAY_DELAY, DigitalWrite p LOW]"

definition isPowerOn :: "camera \<Rightarrow> bool" where
  "isPowerOn c = powerStatus c"

definition setPower :: "bool \<Rightarrow> bool \<Rightarrow> camera \<Rightarrow> camera" where
  "setPower onOff force c =
     (if force = False \<and> powerStatus c = onOff then c
      else c\<lparr> hw := hw c
                   @ relay_pulse CAMERA_POWER_SET_PIN
                   @ (if onOff then relay_pulse INTENSIFIER_POWER_SET_PIN
                      else relay_pulse INTENSIFIER_POWER_UNSET_PIN)
                   @ (if onOff then [Delay CAMERA_POWERUP_DELAY] else []),
              powerStatus := onOff \<rparr>)"

text \<open>One trip of the shutter: the body of the loop in \<^verbatim>\<open>Camera::snap\<close>.\<close>

definition shutter_trip :: "hw_event list" where
  "shutter_trip = [DigitalWrite CAMERA_SHUTTER_PIN HIGH, Delay CAMERA_RELAY_DELAY,
                   DigitalWrite CAMERA_SHUTTER_PIN LOW, Delay CAMERA_SHUTTER_DELAY]"

text \<open>
  The loop \<^verbatim>\<open>for ( uint8_t i = 0; i < nImages; ++i )\<close>, with the 8-bit counter of the
  source.
\<close>

function snap_loop :: "8 word \<Rightarrow> 8 word \<Rightarrow> hw_event list \<Rightarrow> hw_event list" where
  "snap_loop i nImages tr =
     (if i < nImages then snap_loop (i + 1) nImages (tr @ shutter_trip) else tr)"
  by pat_completeness auto
termination
proof (relation "measure (\<lambda>(i, n, tr). unat n - unat i)")
  show "wf (measure (\<lambda>(i :: 8 word, n :: 8 word, tr :: hw_event list). unat n - unat i))"
    by simp
next
  fix i nImages :: "8 word" and tr :: "hw_event list"
  assume lt: "i < nImages"
  then have "unat i < unat nImages" by (simp add: word_less_nat_alt)
  moreover have "unat nImages < 256"
    using unsigned_less [of nImages, where ?'a = nat] by simp
  ultimately have "unat (i + 1) = unat i + 1"
    by (simp add: unat_word_ariths)
  with \<open>unat i < unat nImages\<close> show "((i + 1, nImages, tr @ shutter_trip), (i, nImages, tr))
      \<in> measure (\<lambda>(i, n, tr). unat n - unat i)"
    by simp
qed

declare snap_loop.simps [simp del]

definition snap :: "8 word \<Rightarrow> camera \<Rightarrow> camera" where
  "snap nImages c =
     (if \<not> powerStatus c then c
      else c\<lparr> hw := snap_loop 0 nImages (hw c) \<rparr>)"

text \<open>Reading the trace: rising edges on a pin, and what the relays have latched.\<close>

definition pulses :: "nat \<Rightarrow> hw_event list \<Rightarrow> nat" where
  "pulses p tr = length (filter (\<lambda>e. e = DigitalWrite p HIGH) tr)"

text \<open>
  The intensifier relay has a set line and an unset line: after a trace it is in the state
  of the last line raised, or in its earlier state when neither was.
\<close>

fun intensifier_after :: "hw_event list \<Rightarrow> bool \<Rightarrow> bool" where
  "intensifier_after [] b = b"
| "intensifier_after (DigitalWrite p HIGH # tr) b =
     (if p = INTENSIFIER_POWER_SET_PIN then intensifier_after tr True
      else if p = INTENSIFIER_POWER_UNSET_PIN then intensifier_after tr False
      else intensifier_after tr b)"
| "intensifier_after (e # tr) b = intensifier_after tr b"

text \<open>The hardware calls a camera operation added to the trace.\<close>

definition new_events :: "camera \<Rightarrow> camera \<Rightarrow> hw_event list" where
  "new_events c c' = drop (length (hw c)) (hw c')"
section \<open>Switches.h\<close>

definition SWITCH_DEBOUNCE_PERIOD :: "32 word" where "SWITCH_DEBOUNCE_PERIOD = 50"
definition SWITCH_DOWN :: "16 word" where "SWITCH_DOWN = 0"
definition SWITCH_UP :: "16 word" where "SWITCH_UP = 1"

record switches =
  lastDebounceMillis :: "32 word"
  count :: "16 word"
  previousSteadyState :: "16 word"
  lastSteadyState :: "16 word"
  lastFlickerableState :: "16 word"

text \<open>
  \<^verbatim>\<open>Switches::init\<close>; its argument is what \<^verbatim>\<open>digitalRead( STARTSTOP_SWITCH_PIN )\<close>
  returns.
\<close>

definition switches_init :: "16 word \<Rightarrow> switches" where
  "switches_init pin =
     \<lparr> lastDebounceMillis = 0, count = 0, previousSteadyState = pin,
       lastSteadyState = pin, lastFlickerableState = pin \<rparr>"

text \<open>
  \<^verbatim>\<open>Switches::update\<close>. The arguments are what the hardware returns during the call:
  the pin reading, the value of \<^verbatim>\<open>millis()\<close> read when the reading has changed, and the
  value of \<^verbatim>\<open>millis()\<close> read for the debounce test. Time is 32 bits wide and the
  subtraction wraps, as in the source.
\<close>

definition update :: "16 word \<Rightarrow> 32 word \<Rightarrow> 32 word \<Rightarrow> switches \<Rightarrow> switches" where
  "update currentState millis1 millis2 s =
     (let s1 = (if currentState \<noteq> lastFlickerableState s
                then s\<lparr> lastDebounceMillis := millis1, lastFlickerableState := currentState \<rparr>
                else s);
          s2 = (if millis2 - lastDebounceMillis s1 \<ge> SWITCH_DEBOUNCE_PERIOD
                then s1\<lparr> previousSteadyState := lastSteadyState s1,
                         lastSteadyState := currentState \<rparr>
                else s1)
      in if previousSteadyState s2 \<noteq> lastSteadyState s2 \<and> lastSteadyState s2 = SWITCH_UP
         then s2\<lparr> count := count s2 + 1 \<rparr>
         else s2)"

definition isStartStopPressed :: "switches \<Rightarrow> bool \<times> switches" where
  "isStartStopPressed s = (if count s > 0 then (True, s\<lparr> count := 0 \<rparr>) else (False, s))"

text \<open>
  The control loop as the switch sees it: a sequence of update ticks and queries. Running
  it yields the answers to the queries, in order.
\<close>

datatype switch_event = Tick "16 word" "32 word" "32 word" | Query

fun run_switch :: "switch_event list \<Rightarrow> switches \<Rightarrow> bool list" where
  "run_switch [] s = []"
| "run_switch (Tick pin m1 m2 # es) s = run_switch es (update pin m1 m2 s)"
| "run_switch (Query # es) s =
     (case isStartStopPressed s of (pressed, s') \<Rightarrow> pressed # run_switch es s')"

text \<open>
  The physical movements of the switch in a sequence of readings: each change from up to
  down is the start of a press, each change from down to up is a release.
\<close>

fun readings :: "switch_event list \<Rightarrow> 16 word list" where
  "readings [] = []"
| "readings (Tick pin m1 m2 # es) = pin # readings es"
| "readings (Query # es) = readings es"

fun edges :: "16 word \<Rightarrow> 16 word \<Rightarrow> 16 word list \<Rightarrow> nat" where
  "edges a b [] = 0"
| "edges a b [x] = 0"
| "edges a b (x # y # xs) = (if x = a \<and> y = b then 1 else 0) + edges a b (y # xs)"

text \<open>
  An ideal switch without any contact bounce, up at boot: it is held down from 1000 ms to
  2000 ms, released, and pressed again at 5000 ms. The control loop updates and queries.
\<close>

definition ideal_switch_run :: "switch_event list" where
  "ideal_switch_run =
     [Tick 0 1000 1000, Tick 0 1060 1060, Tick 1 2000 2000, Tick 1 2060 2060, Query, Query,
      Tick 0 5000 5000, Query, Tick 0 5010 5010, Query]"

section \<open>Sensors.h\<close>

text \<open>
  Sensor values are \<^verbatim>\<open>float\<close>s in the source. The readers only copy them, compare them
  and assign the constant \<^verbatim>\<open>0.0\<close>, apart from one unit conversion; they are modelled as
  real numbers. A three-element array is a triple.
\<close>

type_synonym vec3 = "real \<times> real \<times> real"

definition BAD_WATER_TEMPERATURE :: real where "BAD_WATER_TEMPERATURE = - 274"

definition INERTIA_INITIALIZED :: "8 word" where "INERTIA_INITIALIZED = 0x01"
definition PRESSURE_INITIALIZED :: "8 word" where "PRESSURE_INITIALIZED = 0x02"
definition TEMPERATURE_INITIALIZED :: "8 word" where "TEMPERATURE_INITIALIZED = 0x04"
definition ALL_INITIALIZED :: "8 word" where
  "ALL_INITIALIZED = (INERTIA_INITIALIZED OR PRESSURE_INITIALIZED OR TEMPERATURE_INITIALIZED)"

text \<open>The presence tests read the field \<^verbatim>\<open>initialized\<close>, their argument here.\<close>

definition isInertiaSensorPresent :: "8 word \<Rightarrow> bool" where
  "isInertiaSensorPresent initialized = ((initialized AND INERTIA_INITIALIZED) \<noteq> 0)"

definition isPressureSensorPresent :: "8 word \<Rightarrow> bool" where
  "isPressureSensorPresent initialized = ((initialized AND PRESSURE_INITIALIZED) \<noteq> 0)"

definition isTemperatureSensorPresent :: "8 word \<Rightarrow> bool" where
  "isTemperatureSensorPresent initialized = ((initialized AND TEMPERATURE_INITIALIZED) \<noteq> 0)"

text \<open>
  What the inertial module returns from \<^verbatim>\<open>getEvent\<close>, and the four output parameters
  of \<^verbatim>\<open>getInertia\<close>. The output parameters are storage of the caller: the reader gets
  their contents and returns them updated.
\<close>

record inertia_event =
  acceleration :: vec3
  magnetic :: vec3
  gyroscope :: vec3
  temperature :: real

record inertia_out =
  accel :: vec3
  mag :: vec3
  gyro :: vec3
  temp :: real

definition getInertia :: "8 word \<Rightarrow> inertia_event \<Rightarrow> inertia_out \<Rightarrow> inertia_out" where
  "getInertia initialized ev out =
     (if \<not> isInertiaSensorPresent initialized
      then out\<lparr> accel := (0, 0, 0), mag := (0, 0, 0), gyro := (0, 0, 0) \<rparr>
      else out\<lparr> accel := acceleration ev, mag := magnetic ev, gyro := gyroscope ev,
                temp := temperature ev / 16 + 27.5 \<rparr>)"

text \<open>
  \<^verbatim>\<open>getWaterPressure\<close> assigns both of its outputs on every path, so it is a function of
  the sensor's reading (pressure, depth) alone; likewise \<^verbatim>\<open>getWaterTemperature\<close>.
\<close>

definition getWaterPressure :: "8 word \<Rightarrow> real \<times> real \<Rightarrow> real \<times> real" where
  "getWaterPressure initialized reading =
     (if \<not> isPressureSensorPresent initialized then (0, 0) else reading)"

definition getWaterTemperature :: "8 word \<Rightarrow> real \<Rightarrow> real" where
  "getWaterTemperature initialized reading =
     (if \<not> isTemperatureSensorPresent initialized then 0
      else if reading \<le> BAD_WATER_TEMPERATURE then 0 else reading)"

section \<open>Laser.h\<close>

definition LASER_WARMUP_DELAY :: nat where "LASER_WARMUP_DELAY = 50"

text \<open>
  The laser class has its own \<^verbatim>\<open>powerStatus\<close>; the field is called \<open>laserPowerStatus\<close>
  here to keep it apart from the camera's.
\<close>

record laser =
  laserPowerStatus :: bool
  laserHw :: "hw_event list"

definition laser_isPowerOn :: "laser \<Rightarrow> bool" where
  "laser_isPowerOn l = laserPowerStatus l"

definition laser_setPower :: "bool \<Rightarrow> laser \<Rightarrow> laser" where
  "laser_setPower onOff l =
     (if laserPowerStatus l = onOff then l
      else l\<lparr> laserHw := laserHw l
                   @ [DigitalWrite LASER_PIN (if onOff then HIGH else LOW)]
                   @ (if onOff then [Delay LASER_WARMUP_DELAY] else []),
              laserPowerStatus := onOff \<rparr>)"

section \<open>pltlogger.h: status values and the device\<close>

definition DEFAULT_FRAME_INTERVAL :: "32 word" where "DEFAULT_FRAME_INTERVAL = 1000"
definition MINIMUM_FRAME_INTERVAL :: "32 word" where "MINIMUM_FRAME_INTERVAL = 200"

definition HARDWARE_BOOTING :: "8 word" where "HARDWARE_BOOTING = 1"
definition HARDWARE_ERRORS :: "8 word" where "HARDWARE_ERRORS = 2"

definition SOFTWARE_BOOTING :: "8 word" where "SOFTWARE_BOOTING = 1"
definition SOFTWARE_ERRORS :: "8 word" where "SOFTWARE_ERRORS = 2"
definition SOFTWARE_READY :: "8 word" where "SOFTWARE_READY = 3"
definition SOFTWARE_RUNNING :: "8 word" where "SOFTWARE_RUNNING = 4"

definition CAMERA_OFF :: "8 word" where "CAMERA_OFF = 0"
definition CAMERA_BOOTING :: "8 word" where "CAMERA_BOOTING = 1"
definition CAMERA_READY :: "8 word" where "CAMERA_READY = 2"

text \<open>
  The state the command dispatcher reads and writes: the three status values and the run
  settings behind the accessors declared in \<^verbatim>\<open>pltlogger.h\<close>, the two actuators, and the
  text sent to the serial port, one entry per \<^verbatim>\<open>Serial.print\<close> or \<^verbatim>\<open>Serial.printf\<close>.
  The indicator lights, which \<^verbatim>\<open>Lights::setLightsForStatus\<close> derives from the three
  status values, are left out.
\<close>

record device =
  hardwareStatus :: "8 word"
  softwareStatus :: "8 word"
  cameraStatus :: "8 word"
  frameInterval :: "32 word"
  burstSize :: "8 word"
  laserContinuous :: bool
  cam :: camera
  las :: laser
  serial :: "string list"

text \<open>
  The run controller's entry points are declared \<^verbatim>\<open>extern\<close> in \<^verbatim>\<open>pltlogger.h\<close> and
  defined outside these sources. The dispatcher is modelled for any implementation of
  them.
\<close>

record run_controller =
  setFrameInterval :: "32 word \<Rightarrow> device \<Rightarrow> bool \<times> device"
  setBurstSize :: "8 word \<Rightarrow> device \<Rightarrow> bool \<times> device"
  setLaserContinuous :: "bool \<Rightarrow> device \<Rightarrow> bool \<times> device"
  snapAndLog :: "8 word \<Rightarrow> device \<Rightarrow> bool \<times> device"

section \<open>Commands.cpp\<close>

definition CRLF :: string where "CRLF = [CHR 0x0D, CHR 0x0A]"

definition print :: "string \<Rightarrow> device \<Rightarrow> device" where
  "print msg d = d\<lparr> serial := serial d @ [msg] \<rparr>"

text \<open>
  \<^verbatim>\<open>parseLine\<close> (the same code in \<^verbatim>\<open>Commands\<close> and in \<^verbatim>\<open>FileSystem\<close>): the first
  word of the line, and the rest of the line after the white space that follows the word.
\<close>

definition parseLine :: "string \<Rightarrow> string \<times> string" where
  "parseLine string =
     (let s = dropWhile isSpace (cstr string);
          name = takeWhile (\<lambda>c. \<not> isSpace c) s;
          s2 = dropWhile (\<lambda>c. \<not> isSpace c) s
      in if s2 = [] then (name, [])
         else (name, dropWhile isSpace (tl s2)))"

text \<open>The \<^verbatim>\<open>interval\<close> command.\<close>

definition interval_command :: "run_controller \<Rightarrow> string \<Rightarrow> device \<Rightarrow> device" where
  "interval_command rc arg d =
     (if arg = [] then print (fmt_d (sint (frameInterval d)) @ '' ms'' @ CRLF) d
      else
        let interval = (word_of_int (atoi arg) :: 32 word);
            (ok, d1) = setFrameInterval rc interval d
        in if \<not> ok
           then print (''Bad interval. Use >= '' @ fmt_d (sint MINIMUM_FRAME_INTERVAL)
                       @ '' ms or 0 to reset to default.'' @ CRLF) d1
           else if interval = 0
           then print (''Frame interval reset to default '' @ fmt_d (sint (frameInterval d1))
                       @ '' ms'' @ CRLF) d1
           else print (''Frame interval set to '' @ fmt_d (sint (frameInterval d1))
                       @ '' ms'' @ CRLF) d1)"

text \<open>The \<^verbatim>\<open>lasermode\<close> command.\<close>

definition lasermode_command :: "run_controller \<Rightarrow> string \<Rightarrow> device \<Rightarrow> device" where
  "lasermode_command rc arg d =
     (let (showValue, d1) =
            (if arg \<noteq> [] then
               if softwareStatus d = SOFTWARE_RUNNING
               then (False, print (''Cannot change laser mode while imaging is in progress.''
                                   @ CRLF) d)
               else if take 4 arg = ''norm'' then (True, snd (setLaserContinuous rc False d))
               else if take 4 arg = ''cont'' then (True, snd (setLaserContinuous rc True d))
               else (False, print (''Unknown mode. Use 'normal' or 'continuous'.'' @ CRLF) d)
             else (True, d))
      in if showValue then
           if laserContinuous d1
           then print (''Continuous. Laser will be on for the whole run.'' @ CRLF) d1
           else print (''Normal. Laser will be turned on for each image.'' @ CRLF) d1
         else d1)"

text \<open>The \<^verbatim>\<open>burstsize\<close> command.\<close>

definition burstsize_command :: "run_controller \<Rightarrow> string \<Rightarrow> device \<Rightarrow> device" where
  "burstsize_command rc arg d =
     (let (showValue, d1) =
            (if arg \<noteq> [] then
               if softwareStatus d = SOFTWARE_RUNNING
               then (False, print (''Cannot change burst size while imaging is progress.''
                                   @ CRLF) d)
               else (True, snd (setBurstSize rc (word_of_int (atoi arg)) d))
             else (True, d))
      in if showValue
         then print (''Shoot '' @ fmt_d (uint (burstSize d1)) @ '' images at a time.'' @ CRLF) d1
         else d1)"

text \<open>The \<^verbatim>\<open>camera\<close> command.\<close>

definition camera_command :: "string \<Rightarrow> device \<Rightarrow> device" where
  "camera_command arg d =
     (if arg \<noteq> [] then
        if softwareStatus d = SOFTWARE_RUNNING
        then print (''Cannot change camera on/off while imaging is in progress.'' @ CRLF) d
        else if arg = ''on'' then
          if isPowerOn (cam d) = True
          then print (''  with the camera state. Use 'camera forceoff'.'' @ CRLF)
                (print (''  If this is not the case, the software is out of sync'' @ CRLF)
                  (print (''Camera and intensifier are already on.'' @ CRLF) d))
          else
            let d1 = print (''Camera and intensifier powering up...'' @ CRLF)
                       (d\<lparr> cameraStatus := CAMERA_BOOTING \<rparr>);
                d2 = d1\<lparr> cam := setPower True False (cam d1) \<rparr>;
                d3 = d2\<lparr> cameraStatus := CAMERA_READY \<rparr>
            in print (''  with the camera state. Use 'camera forceoff' if that occurs.'' @ CRLF)
                (print (''  Beware: use 'camera off' or the software may get out of sync'' @ CRLF)
                  (print (''Camera and intensifier are on.'' @ CRLF) d3))
        else if arg = ''off'' then
          if isPowerOn (cam d) = False
          then print (''  with the camera state. Use 'camera forceoff'.'' @ CRLF)
                (print (''  If this is not the case, the software is out of sync'' @ CRLF)
                  (print (''Camera is already off.'' @ CRLF) d))
          else
            let d1 = print (''Camera and intensifier powering down...'' @ CRLF) d;
                d2 = d1\<lparr> cam := setPower False False (cam d1) \<rparr>;
                d3 = d2\<lparr> cameraStatus := CAMERA_OFF \<rparr>
            in print (''Camera and intensifier are off.'' @ CRLF) d3
        else if arg = ''forceoff'' \<or> arg = ''reset'' then
          let d1 = print (''Camera and intensifier powering down (force)...'' @ CRLF) d;
              d2 = d1\<lparr> cam := setPower False True (cam d1) \<rparr>;
              d3 = d2\<lparr> cameraStatus := CAMERA_OFF \<rparr>
          in print (''  If the camera still appears to be on, use this command again.'' @ CRLF)
              (print (''Camera and intensifier should be off.'' @ CRLF) d3)
        else print (''Use 'on', 'off', or 'forceoff'.'' @ CRLF)
              (print (''Unknown camera command: '' @ arg @ CRLF) d)
      else print (''Camera is '' @ (if isPowerOn (cam d) = True then ''on'' else ''off'')
                  @ ''.'' @ CRLF) d)"

text \<open>The \<^verbatim>\<open>laser\<close> command.\<close>

definition laser_command :: "string \<Rightarrow> device \<Rightarrow> device" where
  "laser_command arg d =
     (if arg \<noteq> [] then
        if softwareStatus d = SOFTWARE_RUNNING
        then print (''Cannot change laser on/off while imaging is in progress.'' @ CRLF) d
        else if arg = ''on'' then
          let d1 = print (''Laser powering up...'' @ CRLF) d;
              d2 = d1\<lparr> las := laser_setPower True (las d1) \<rparr>
          in print (''Laser is on.'' @ CRLF) d2
        else if arg = ''off'' then
          let d1 = print (''Laser powering down...'' @ CRLF) d;
              d2 = d1\<lparr> las := laser_setPower False (las d1) \<rparr>
          in print (''Laser is off.'' @ CRLF) d2
        else print (''Use 'on' or 'off'.'' @ CRLF)
              (print (''Unknown laser command: '' @ arg @ CRLF) d)
      else print (''Laser is '' @ (if laser_isPowerOn (las d) = True then ''on'' else ''off'')
                  @ ''.'' @ CRLF) d)"

text \<open>
  \<^verbatim>\<open>Commands::snap\<close>. Its parameter is 16 bits wide; the parameter of \<^verbatim>\<open>snapAndLog\<close>
  is 8 bits wide, so the call narrows the count.
\<close>

definition commands_snap :: "run_controller \<Rightarrow> 16 word \<Rightarrow> device \<Rightarrow> device" where
  "commands_snap rc nImages d =
     (if hardwareStatus d = HARDWARE_BOOTING \<or> softwareStatus d = SOFTWARE_BOOTING
      then print (''Still booting. Not yet ready to run.'' @ CRLF) d
      else if hardwareStatus d = HARDWARE_ERRORS \<or> softwareStatus d = SOFTWARE_ERRORS
      then print (''Type 'hwinfo' for hardware info.'' @ CRLF)
            (print (''Cannot snap due to critical hardware errors.'' @ CRLF) d)
      else if softwareStatus d = SOFTWARE_RUNNING
      then print (''Cannot snap a photo while imaging is in progress.'' @ CRLF) d
      else
        let d1 = print (''Camera powering up...'' @ CRLF) d;
            d2 = snd (snapAndLog rc (ucast nImages) d1)
        in if nImages = 1 then print (''One image shot.'' @ CRLF) d2
           else print (fmt_d (uint nImages) @ '' images shot.'' @ CRLF) d2)"

text \<open>The number of images the \<^verbatim>\<open>snap\<close> command asks \<^verbatim>\<open>Commands::snap\<close> for.\<close>

definition snap_command_images :: "string \<Rightarrow> device \<Rightarrow> 16 word" where
  "snap_command_images arg d =
     (if arg = [] then ucast (burstSize d)
      else let nImages = (word_of_int (atoi arg) :: 16 word)
           in if nImages \<le> 1 then 1 else nImages)"

definition snap_command :: "run_controller \<Rightarrow> string \<Rightarrow> device \<Rightarrow> device" where
  "snap_command rc arg d = commands_snap rc (snap_command_images arg d) d"

text \<open>
  \<^verbatim>\<open>Commands::dispatch\<close>, for the commands that change settings or actuator power and
  for \<^verbatim>\<open>snap\<close>. Every other command gives \<open>None\<close>: it is outside this model.
\<close>

definition dispatch :: "run_controller \<Rightarrow> string \<Rightarrow> device \<Rightarrow> device option" where
  "dispatch rc line d =
     (let (command, arg) = parseLine line
      in if command = ''interval'' then Some (interval_command rc arg d)
         else if command = ''lasermode'' then Some (lasermode_command rc arg d)
         else if command = ''burstsize'' then Some (burstsize_command rc arg d)
         else if command = ''camera'' then Some (camera_command arg d)
         else if command = ''laser'' then Some (laser_command arg d)
         else if command = ''snap'' then Some (snap_command rc arg d)
         else None)"

text \<open>
  Modelled from the spec: \<^verbatim>\<open>setFrameInterval\<close>, which these sources only declare. The
  spec says of the run settings that they are mutated only when the software status is
  not Running, a change of settings in the middle of a run being refused; and of the
  frame interval that a value below \<^verbatim>\<open>MINIMUM_FRAME_INTERVAL\<close> is never accepted, except
  0, which resets the interval to the compiled-in default.
\<close>

definition spec_setFrameInterval :: "32 word \<Rightarrow> device \<Rightarrow> bool \<times> device" where
  "spec_setFrameInterval interval d =
     (if softwareStatus d = SOFTWARE_RUNNING then (False, d)
      else if interval = 0 then (True, d\<lparr> frameInterval := DEFAULT_FRAME_INTERVAL \<rparr>)
      else if interval < MINIMUM_FRAME_INTERVAL then (False, d)
      else (True, d\<lparr> frameInterval := interval \<rparr>))"

text \<open>
  A controller for the sample runs. Of its entry points only \<^verbatim>\<open>setFrameInterval\<close> is
  reached by the commands given there; the three others are left to refuse.
\<close>

definition sample_controller :: run_controller where
  "sample_controller =
     \<lparr> setFrameInterval = spec_setFrameInterval,
       setBurstSize = (\<lambda>n d. (False, d)),
       setLaserContinuous = (\<lambda>b d. (False, d)),
       snapAndLog = (\<lambda>n d. (False, d)) \<rparr>"

text \<open>
  A device in the middle of a run, with the default settings, and the same device before
  the run was started.
\<close>

definition running_device :: device where
  "running_device =
     \<lparr> hardwareStatus = 4, softwareStatus = SOFTWARE_RUNNING, cameraStatus = CAMERA_READY,
       frameInterval = 1000, burstSize = 1, laserContinuous = False,
       cam = \<lparr>powerStatus = True, hw = []\<rparr>,
       las = \<lparr>laserPowerStatus = False, laserHw = []\<rparr>, serial = [] \<rparr>"

definition ready_device :: device where
  "ready_device = running_device\<lparr> softwareStatus := SOFTWARE_READY \<rparr>"

section \<open>FileSystem.h and FileSystem.cpp\<close>

datatype fs_error =
    FS_ERROR_NONE | FS_ERROR_UNINITIALIZED | FS_ERROR_NOCARD | FS_ERROR_BAD_FORMAT
  | FS_ERROR_CARD_FULL | FS_ERROR_TOO_MANY_LOG_FILES | FS_ERROR_BAD_PATH | FS_ERROR_IS_DIR
  | FS_ERROR_IS_FILE | FS_ERROR_CANNOT_RM

definition BUFFER_SIZE :: nat where "BUFFER_SIZE = 1025"
definition MAX_LOG_FILES :: nat where "MAX_LOG_FILES = 100"
definition SETTINGS_FILENAME :: string where "SETTINGS_FILENAME = ''SETTINGS.TXT''"
definition SD_CARD_ERROR_NONE :: "8 word" where "SD_CARD_ERROR_NONE = 0"

subsection \<open>The card and the SdFat library\<close>

text \<open>
  The firmware reaches the card through the SdFat library, which is not part of these
  sources. The model keeps what the firmware can observe of it: the files of the root
  directory (name to bytes), the sector count and the library's error code. Whether an
  \<^verbatim>\<open>open\<close>, a \<^verbatim>\<open>write\<close>, a \<^verbatim>\<open>sync\<close> or a \<^verbatim>\<open>remove\<close> succeeds is decided by the card, so
  each operation takes the card's answers as an argument.

  A \<^verbatim>\<open>write\<close> of \<open>n\<close> bytes either takes \<open>k\<close> of them and returns the number taken, or
  fails after taking \<open>k\<close> and returns \<open>-1\<close>, which the firmware sees as an unsigned number.
  Files are opened with \<^verbatim>\<open>O_WRONLY|O_CREAT\<close>: a missing file is created empty, an existing
  file keeps its bytes, and writing starts at offset 0.
\<close>

datatype write_result = Wrote nat | WriteFailed nat

record card_io =
  open_ok :: bool
  write_res :: write_result
  sync_ok :: bool
  remove_ok :: bool

text \<open>
  The fields of the class, after those of the card. \<open>logFile\<close> is the name of the open
  data log, or \<open>None\<close> when the \<^verbatim>\<open>SdFile\<close> is closed. \<open>writeCalls\<close> is not a field of the
  source: it counts the calls of \<^verbatim>\<open>logFile.write\<close>.
\<close>

record filesystem =
  files :: "string \<Rightarrow> string option"
  sectorCount :: "32 word"
  sdErrorCode :: "8 word"
  logFile :: "string option"
  initialized :: bool
  sharedFilename :: string
  sharedBuffer :: string
  cardErrorCode :: "8 word"
  localErrorCode :: fs_error
  numberOfDataLogEntries :: "32 word"
  writeCalls :: nat

definition stored_bytes :: "write_result \<Rightarrow> string \<Rightarrow> string" where
  "stored_bytes r buf = (case r of Wrote k \<Rightarrow> take k buf | WriteFailed k \<Rightarrow> take k buf)"

definition write_returns :: "write_result \<Rightarrow> string \<Rightarrow> 32 word" where
  "write_returns r buf =
     (case r of Wrote k \<Rightarrow> of_nat (length (take k buf)) | WriteFailed k \<Rightarrow> - 1)"

definition file_bytes :: "filesystem \<Rightarrow> string \<Rightarrow> string" where
  "file_bytes fs name = (case files fs name of None \<Rightarrow> [] | Some bytes \<Rightarrow> bytes)"

definition sd_exists :: "filesystem \<Rightarrow> string \<Rightarrow> bool" where
  "sd_exists fs name = (files fs name \<noteq> None)"

text \<open>
  \<^verbatim>\<open>sd.remove( name )\<close> returns a \<^verbatim>\<open>bool\<close>: the file is gone when the card carries the
  removal out, and stays as it is when the card does not.
\<close>

definition sd_remove :: "string \<Rightarrow> bool \<Rightarrow> filesystem \<Rightarrow> bool \<times> filesystem" where
  "sd_remove name ok fs =
     (if ok then (True, fs\<lparr> files := (files fs)(name := None) \<rparr>) else (False, fs))"

text \<open>\<^verbatim>\<open>open( name, O_WRONLY|O_CREAT )\<close>, as far as the directory goes.\<close>

definition sd_create :: "string \<Rightarrow> filesystem \<Rightarrow> filesystem" where
  "sd_create name fs =
     (if sd_exists fs name then fs else fs\<lparr> files := (files fs)(name \<mapsto> []) \<rparr>)"

text \<open>
  \<^verbatim>\<open>logFile.write\<close>. The data log is created by \<^verbatim>\<open>newDataLog\<close> under a name that did not
  exist, so its write offset is the end of the file.
\<close>

definition logFile_write :: "string \<Rightarrow> write_result \<Rightarrow> filesystem \<Rightarrow> 32 word \<times> filesystem" where
  "logFile_write buf r fs =
     (write_returns r buf,
      fs\<lparr> files := (case logFile fs of
                       None \<Rightarrow> files fs
                     | Some name \<Rightarrow> (files fs)(name \<mapsto> file_bytes fs name @ stored_bytes r buf)),
          writeCalls := writeCalls fs + 1 \<rparr>)"

text \<open>A \<^verbatim>\<open>write\<close> at offset 0 of a file opened without truncation.\<close>

definition overwrite_from_start :: "string \<Rightarrow> string \<Rightarrow> string" where
  "overwrite_from_start new old = new @ drop (length new) old"

subsection \<open>The data log\<close>

definition isDataLogOpen :: "filesystem \<Rightarrow> bool" where
  "isDataLogOpen fs = (if logFile fs \<noteq> None then True else False)"

definition closeDataLog :: "filesystem \<Rightarrow> filesystem" where
  "closeDataLog fs =
     fs\<lparr> logFile := None, numberOfDataLogEntries := 0, localErrorCode := FS_ERROR_NONE \<rparr>"

text \<open>
  Rows are built by one \<^verbatim>\<open>sprintf\<close> whose format separates the fields by commas and ends
  in \<^verbatim>\<open>\r\n\<close>; \<open>csv_line\<close> is that format applied to the list of rendered fields. String
  arguments are given by their characters up to the NUL.
\<close>

definition DQUOTE :: char where "DQUOTE = CHR 0x22"

definition quoted :: "string \<Rightarrow> string" where
  "quoted s = DQUOTE # s @ [DQUOTE]"

fun comma_separated :: "string list \<Rightarrow> string" where
  "comma_separated [] = []"
| "comma_separated [f] = f"
| "comma_separated (f # g # fs) = f @ '','' @ comma_separated (g # fs)"

definition csv_line :: "string list \<Rightarrow> string" where
  "csv_line cells = comma_separated cells @ CRLF"

text \<open>The column names, with \<^verbatim>\<open>BATTERY_IN_DATA_LOG\<close> defined as in \<^verbatim>\<open>FileSystem.h\<close>.\<close>

definition DATA_LOG_COLUMNS :: "string list" where
  "DATA_LOG_COLUMNS =
     [''Timestamp'', ''Milliseconds'', ''Pressure'', ''Depth'', ''Water_Temperature'',
      ''Device_Temperature'', ''Acceleration_X'', ''Acceleration_Y'', ''Acceleration_Z'',
      ''Magnetic_X'', ''Magnetic_Y'', ''Magnetic_Z'', ''Gyroscope_X'', ''Gyroscope_Y'',
      ''Gyroscope_Z'', ''Controller_Volts'', ''Controller_Percent'', ''Main_Volts'',
      ''Main_Percent'']"

definition data_log_header :: string where
  "data_log_header = csv_line (map quoted DATA_LOG_COLUMNS)"

text \<open>
  How the C library renders a \<^verbatim>\<open>float\<close> under \<^verbatim>\<open>%f\<close>, \<^verbatim>\<open>%5.3f\<close> and \<^verbatim>\<open>%3.1f\<close> is left
  open: the three conversions are parameters.
\<close>

record printf_float =
  fmt_f :: "real \<Rightarrow> string"
  fmt_5_3f :: "real \<Rightarrow> string"
  fmt_3_1f :: "real \<Rightarrow> string"

text \<open>
  The arguments of \<^verbatim>\<open>writeDataLog\<close>, and the four battery readings it fetches from
  \<^verbatim>\<open>Battery\<close> while formatting.
\<close>

record log_entry =
  dt :: string
  ms :: "32 word"
  pressure :: real
  depth :: real
  waterTemperature :: real
  deviceTemperature :: real
  entry_accel :: vec3
  entry_mag :: vec3
  entry_gyro :: vec3
  controllerVoltage :: real
  controllerPercent :: real
  mainVoltage :: real
  mainPercent :: real

definition data_log_fields :: "printf_float \<Rightarrow> log_entry \<Rightarrow> string list" where
  "data_log_fields pf e =
     [quoted (dt e), fmt_d (sint (ms e)),
      fmt_f pf (pressure e), fmt_f pf (depth e),
      fmt_f pf (waterTemperature e), fmt_f pf (deviceTemperature e),
      fmt_f pf (fst (entry_accel e)), fmt_f pf (fst (snd (entry_accel e))),
      fmt_f pf (snd (snd (entry_accel e))),
      fmt_f pf (fst (entry_mag e)), fmt_f pf (fst (snd (entry_mag e))),
      fmt_f pf (snd (snd (entry_mag e))),
      fmt_f pf (fst (entry_gyro e)), fmt_f pf (fst (snd (entry_gyro e))),
      fmt_f pf (snd (snd (entry_gyro e))),
      fmt_5_3f pf (controllerVoltage e), fmt_3_1f pf (controllerPercent e),
      fmt_5_3f pf (mainVoltage e), fmt_3_1f pf (mainPercent e)]"

definition data_log_row :: "printf_float \<Rightarrow> log_entry \<Rightarrow> string" where
  "data_log_row pf e = csv_line (data_log_fields pf e)"

text \<open>
  The common tail of \<^verbatim>\<open>writeDataLogHeader\<close> and \<^verbatim>\<open>writeDataLog\<close>: write the shared
  buffer, sync, and on failure classify the error, close the log and reset the counter.
  \<^verbatim>\<open>sync\<close> is only called when the write returned the full length.
\<close>

definition write_failure :: "filesystem \<Rightarrow> filesystem" where
  "write_failure fs =
     fs\<lparr> cardErrorCode := sdErrorCode fs,
         localErrorCode := (if sectorCount fs \<le> 0 then FS_ERROR_NOCARD else FS_ERROR_CARD_FULL),
         logFile := None,
         numberOfDataLogEntries := 0 \<rparr>"

definition writeDataLogHeader :: "card_io \<Rightarrow> filesystem \<Rightarrow> bool \<times> filesystem" where
  "writeDataLogHeader io fs =
     (if isDataLogOpen fs = False then (False, fs)
      else
        let fs1 = fs\<lparr> sharedBuffer := data_log_header \<rparr>;
            nBytes = (of_nat (length (sharedBuffer fs1)) :: 32 word);
            (written, fs2) = logFile_write (sharedBuffer fs1) (write_res io) fs1
        in if written \<noteq> nBytes \<or> \<not> sync_ok io then (False, write_failure fs2)
           else (True, fs2))"

definition writeDataLog ::
    "printf_float \<Rightarrow> log_entry \<Rightarrow> card_io \<Rightarrow> filesystem \<Rightarrow> bool \<times> filesystem" where
  "writeDataLog pf e io fs =
     (if isDataLogOpen fs = False then (False, fs)
      else
        let fs1 = fs\<lparr> sharedBuffer := data_log_row pf e \<rparr>;
            nBytes = (of_nat (length (sharedBuffer fs1)) :: 32 word);
            (written, fs2) = logFile_write (sharedBuffer fs1) (write_res io) fs1
        in if written \<noteq> nBytes \<or> \<not> sync_ok io then (False, write_failure fs2)
           else (True, fs2\<lparr> numberOfDataLogEntries := numberOfDataLogEntries fs2 + 1 \<rparr>))"

text \<open>\<^verbatim>\<open>sprintf( sharedFilename, "DATA_%02d.CSV", i )\<close>.\<close>

definition data_log_filename :: "nat \<Rightarrow> string" where
  "data_log_filename i = ''DATA_'' @ fmt_02d i @ ''.CSV''"

text \<open>
  The body of \<^verbatim>\<open>newDataLog\<close> once a free name is in \<^verbatim>\<open>sharedFilename\<close>: create and open
  the file, start it with the header, and ask the card to remove it again when the header
  cannot be written. The result of that \<^verbatim>\<open>sd.remove\<close> is not looked at.
\<close>

definition create_data_log :: "card_io \<Rightarrow> filesystem \<Rightarrow> bool \<times> filesystem" where
  "create_data_log io fs =
     (let fs1 = (if open_ok io
                 then (sd_create (sharedFilename fs) fs)\<lparr> logFile := Some (sharedFilename fs) \<rparr>
                 else fs);
          (status, fs2) =
            (if \<not> isDataLogOpen fs1
             then (False, fs1\<lparr> cardErrorCode := sdErrorCode fs1,
                               localErrorCode := (if sectorCount fs1 \<le> 0 then FS_ERROR_NOCARD
                                                  else localErrorCode fs1) \<rparr>)
             else (True, fs1));
          (header_ok, fs3) = writeDataLogHeader io fs2
      in if \<not> header_ok
         then (False, snd (sd_remove (sharedFilename fs3) (remove_ok io) fs3))
         else (status, fs3))"

text \<open>The search loop \<^verbatim>\<open>for ( uint16_t i = 0; i < MAX_LOG_FILES; ++i )\<close>.\<close>

function newDataLog_loop :: "nat \<Rightarrow> card_io \<Rightarrow> filesystem \<Rightarrow> bool \<times> filesystem" where
  "newDataLog_loop i io fs =
     (if i < MAX_LOG_FILES then
        let fs1 = fs\<lparr> sharedFilename := data_log_filename i \<rparr>
        in if \<not> sd_exists fs1 (sharedFilename fs1) then create_data_log io fs1
           else newDataLog_loop (i + 1) io fs1
      else (False, fs\<lparr> localErrorCode := FS_ERROR_TOO_MANY_LOG_FILES \<rparr>))"
  by pat_completeness auto
termination
  by (relation "measure (\<lambda>(i, io, fs). MAX_LOG_FILES - i)") auto

declare newDataLog_loop.simps [simp del]

definition newDataLog :: "card_io \<Rightarrow> filesystem \<Rightarrow> bool \<times> filesystem" where
  "newDataLog io fs =
     (if \<not> initialized fs then (False, fs)
      else newDataLog_loop 0 io
             (fs\<lparr> logFile := None, numberOfDataLogEntries := 0,
                  localErrorCode := FS_ERROR_NONE, cardErrorCode := SD_CARD_ERROR_NONE \<rparr>))"

text \<open>
  The data log as its users drive it: a sequence of calls, each with the card's answers.
  \<open>writes_refused\<close> follows such a sequence up to the first \<^verbatim>\<open>newDataLog\<close> that
  returns true, and holds when every \<^verbatim>\<open>writeDataLog\<close> on the way returned false and left
  the files as they were.
\<close>

datatype log_call =
    WriteDataLog printf_float log_entry card_io
  | NewDataLog card_io
  | CloseDataLog

fun writes_refused :: "log_call list \<Rightarrow> filesystem \<Rightarrow> bool" where
  "writes_refused [] fs = True"
| "writes_refused (WriteDataLog pf e io # calls) fs =
     (case writeDataLog pf e io fs of
        (ok, fs') \<Rightarrow> \<not> ok \<and> files fs' = files fs \<and> writes_refused calls fs')"
| "writes_refused (NewDataLog io # calls) fs =
     (case newDataLog io fs of (ok, fs') \<Rightarrow> ok \<or> writes_refused calls fs')"
| "writes_refused (CloseDataLog # calls) fs = writes_refused calls (closeDataLog fs)"

text \<open>Appending a list of entries, each with the card's answers, while every call succeeds.\<close>

fun write_entries ::
    "printf_float \<Rightarrow> (log_entry \<times> card_io) list \<Rightarrow> filesystem \<Rightarrow> bool \<times> filesystem" where
  "write_entries pf [] fs = (True, fs)"
| "write_entries pf ((e, io) # es) fs =
     (case writeDataLog pf e io fs of
        (ok, fs') \<Rightarrow> if ok then write_entries pf es fs' else (False, fs'))"

text \<open>
  Sample states and card answers: an initialised card without files; a card that takes
  every write; a card that has room for ten more bytes; that card when it also refuses to
  remove a file; a stand-in for the C library's rendering of floats; a log entry of
  zeroes; and an open log that holds its header.
\<close>

definition empty_card :: filesystem where
  "empty_card =
     \<lparr> files = (\<lambda>name. None), sectorCount = 62333952, sdErrorCode = 0, logFile = None,
       initialized = True, sharedFilename = [], sharedBuffer = [], cardErrorCode = 0,
       localErrorCode = FS_ERROR_NONE, numberOfDataLogEntries = 0, writeCalls = 0 \<rparr>"

definition io_ok :: card_io where
  "io_ok = \<lparr> open_ok = True, write_res = Wrote 1024, sync_ok = True, remove_ok = True \<rparr>"

definition io_card_full :: card_io where
  "io_card_full =
     \<lparr> open_ok = True, write_res = Wrote 10, sync_ok = True, remove_ok = True \<rparr>"

definition io_card_full_no_remove :: card_io where
  "io_card_full_no_remove =
     \<lparr> open_ok = True, write_res = Wrote 10, sync_ok = True, remove_ok = False \<rparr>"

definition pf_sample :: printf_float where
  "pf_sample = \<lparr> fmt_f = (\<lambda>x. ''0.000000''), fmt_5_3f = (\<lambda>x. ''0.000''),
                 fmt_3_1f = (\<lambda>x. ''0.0'') \<rparr>"

definition entry_zero :: log_entry where
  "entry_zero =
     \<lparr> dt = ''01/01/2000 00:00:00'', ms = 0, pressure = 0, depth = 0, waterTemperature = 0,
       deviceTemperature = 0, entry_accel = (0, 0, 0), entry_mag = (0, 0, 0),
       entry_gyro = (0, 0, 0), controllerVoltage = 0, controllerPercent = 0,
       mainVoltage = 0, mainPercent = 0 \<rparr>"

definition open_log :: filesystem where
  "open_log = empty_card\<lparr> files := (\<lambda>name. None)(''DATA_00.CSV'' \<mapsto> data_log_header),
                           logFile := Some ''DATA_00.CSV'' \<rparr>"

text \<open>
  The invariant that ties the entry counter to the log: while no log is open, the counter
  is zero.
\<close>

definition log_invariant :: "filesystem \<Rightarrow> bool" where
  "log_invariant fs = (logFile fs = None \<longrightarrow> numberOfDataLogEntries fs = 0)"

text \<open>
  More sample cards: one with two data logs on it, one on which every file name exists,
  and that same card when \<^verbatim>\<open>FileSystem::init\<close> has failed.
\<close>

definition two_logs_card :: filesystem where
  "two_logs_card =
     empty_card\<lparr> files := (\<lambda>name. None)(''DATA_00.CSV'' \<mapsto> data_log_header,
                                             ''DATA_01.CSV'' \<mapsto> data_log_header) \<rparr>"

definition every_name_taken :: "string \<Rightarrow> string option" where
  "every_name_taken name = Some []"

definition crowded_card :: filesystem where
  "crowded_card = empty_card\<lparr> files := every_name_taken \<rparr>"

definition unmounted_card :: filesystem where
  "unmounted_card = crowded_card\<lparr> initialized := False, localErrorCode := FS_ERROR_NOCARD \<rparr>"

subsection \<open>The settings file\<close>

text \<open>
  \<^verbatim>\<open>readLine\<close>, run on the bytes of the file that have not been read yet. The second
  argument is the part of the shared buffer filled so far (\<^verbatim>\<open>nBytes\<close> is its length); the
  result is the line and the bytes left in the file. A carriage return is read and
  dropped, a line feed ends the line, and a full buffer ends it before the next read.
\<close>

fun readLine_loop :: "string \<Rightarrow> string \<Rightarrow> string \<times> string" where
  "readLine_loop [] buf = (buf, [])"
| "readLine_loop (c # cs) buf =
     (if length buf < BUFFER_SIZE - 1 then
        if c = CHR 0x0D then readLine_loop cs buf
        else if c = CHR 0x0A then (buf, cs)
        else readLine_loop cs (buf @ [c])
      else (buf, c # cs))"

definition readLine :: "string \<Rightarrow> string \<times> string" where
  "readLine bytes = readLine_loop bytes []"

text \<open>
  The three output parameters of \<^verbatim>\<open>loadSettings\<close> are storage of the caller: a line that
  names none of them, or a file without such lines, leaves them as they were. The
  parameter \<^verbatim>\<open>burstSize\<close> of the two functions is called \<open>nBurst\<close> below.
\<close>

record settings =
  st_interval :: "32 word"
  st_isLaserContinuous :: bool
  st_burstSize :: "8 word"

text \<open>The body of the \<^verbatim>\<open>while\<close> loop of \<^verbatim>\<open>loadSettings\<close>, for one line of the file.\<close>

definition apply_settings_line :: "string \<Rightarrow> settings \<Rightarrow> settings" where
  "apply_settings_line line st =
     (case parseLine line of
        (name, val) \<Rightarrow>
          if name = [] \<or> val = [] then st
          else if name = ''interval'' then st\<lparr> st_interval := word_of_int (atoi val) \<rparr>
          else if name = ''burstsize'' then st\<lparr> st_burstSize := word_of_int (atoi val) \<rparr>
          else if name = ''lasercontinuous''
          then (if atoi val = 1 then st\<lparr> st_isLaserContinuous := True \<rparr>
                else st\<lparr> st_isLaserContinuous := False \<rparr>)
          else st)"

text \<open>
  The loop \<^verbatim>\<open>while ( readLine( file ) > 0 )\<close>: it ends at the first empty line. The first
  component of \<open>readLine bytes\<close> is the line in the shared buffer, the second the bytes
  still unread.
\<close>

function loadSettings_loop :: "string \<Rightarrow> settings \<Rightarrow> settings" where
  "loadSettings_loop bytes st =
     (if length (fst (readLine bytes)) > 0
      then loadSettings_loop (snd (readLine bytes))
             (apply_settings_line (fst (readLine bytes)) st)
      else st)"
  by pat_completeness auto
termination
proof (relation "measure (\<lambda>(bytes, st). length bytes)")
  show "wf (measure (\<lambda>(bytes :: string, st :: settings). length bytes))" by simp
next
  fix bytes :: string and st :: settings
  assume l: "0 < length (fst (readLine bytes))"
  have "length (snd (readLine_loop bs buf)) + length (fst (readLine_loop bs buf))
          \<le> length bs + length buf" for bs buf
    by (induction bs buf rule: readLine_loop.induct) auto
  from this [of bytes "[]"]
  have "length (snd (readLine bytes)) + length (fst (readLine bytes)) \<le> length bytes"
    by (simp add: readLine_def)
  with l have "length (snd (readLine bytes)) < length bytes" by linarith
  then show "((snd (readLine bytes), apply_settings_line (fst (readLine bytes)) st), (bytes, st))
      \<in> measure (\<lambda>(bytes, st). length bytes)" by simp
qed

declare loadSettings_loop.simps [simp del]

definition loadSettings :: "card_io \<Rightarrow> filesystem \<Rightarrow> settings \<Rightarrow> bool \<times> settings" where
  "loadSettings io fs st =
     (if \<not> initialized fs then (False, st)
      else case files fs SETTINGS_FILENAME of
             None \<Rightarrow> (False, st)
           | Some bytes \<Rightarrow>
               if \<not> open_ok io then (False, st)
               else (True, loadSettings_loop bytes st))"

text \<open>
  The text \<^verbatim>\<open>saveSettings\<close> formats. \<^verbatim>\<open>%ld\<close> prints the unsigned 32-bit interval as a
  signed \<^verbatim>\<open>long\<close>; \<^verbatim>\<open>%d\<close> prints the burst size after promotion to \<^verbatim>\<open>int\<close>.
\<close>

definition settings_text :: "32 word \<Rightarrow> bool \<Rightarrow> 8 word \<Rightarrow> string" where
  "settings_text interval isLaserContinuous nBurst =
     ''interval '' @ fmt_d (sint interval) @ CRLF
     @ ''burstsize '' @ fmt_d (uint nBurst) @ CRLF
     @ ''lasercontinuous '' @ fmt_d (if isLaserContinuous then 1 else 0) @ CRLF"

text \<open>
  \<^verbatim>\<open>saveSettings\<close>. The file is opened with \<^verbatim>\<open>O_WRONLY|O_CREAT\<close>, without \<^verbatim>\<open>O_TRUNC\<close>: the
  text is written over the start of what the file held before.
\<close>

definition saveSettings ::
    "32 word \<Rightarrow> bool \<Rightarrow> 8 word \<Rightarrow> card_io \<Rightarrow> filesystem \<Rightarrow> bool \<times> filesystem" where
  "saveSettings interval isLaserContinuous nBurst io fs =
     (if \<not> initialized fs then (False, fs)
      else
        let fs1 = fs\<lparr> localErrorCode := FS_ERROR_NONE, cardErrorCode := SD_CARD_ERROR_NONE \<rparr>
        in if \<not> open_ok io then (False, fs1)
           else
             let fs2 = sd_create SETTINGS_FILENAME fs1;
                 fs3 = fs2\<lparr> sharedBuffer := settings_text interval isLaserContinuous nBurst \<rparr>;
                 nBytes = (of_nat (length (sharedBuffer fs3)) :: 32 word);
                 written = write_returns (write_res io) (sharedBuffer fs3);
                 fs4 = fs3\<lparr> files := (files fs3)(SETTINGS_FILENAME \<mapsto>
                                 overwrite_from_start
                                   (stored_bytes (write_res io) (sharedBuffer fs3))
                                   (file_bytes fs3 SETTINGS_FILENAME)) \<rparr>
             in if written \<noteq> nBytes \<or> \<not> sync_ok io
                then (False, fs4\<lparr> cardErrorCode := sdErrorCode fs4,
                                  localErrorCode := FS_ERROR_CARD_FULL \<rparr>)
                else (True, fs4))"

text \<open>
  A card whose settings file was written by hand, with two comment lines before the
  settings.
\<close>

definition hand_written_settings :: string where
  "hand_written_settings =
     ''# Pelagic Laser Tomographer settings'' @ CRLF
     @ ''# edit with care'' @ CRLF
     @ ''interval 500'' @ CRLF
     @ ''burstsize 3'' @ CRLF
     @ ''lasercontinuous 1'' @ CRLF"

definition hand_written_card :: filesystem where
  "hand_written_card =
     empty_card\<lparr> files := (\<lambda>name. None)(SETTINGS_FILENAME \<mapsto> hand_written_settings) \<rparr>"

definition default_settings :: settings where
  "default_settings =
     \<lparr> st_interval = 1000, st_isLaserContinuous = False, st_burstSize = 1 \<rparr>"

text \<open>A line that \<^verbatim>\<open>readLine\<close> returns whole: not empty, no line ends inside, shorter than the buffer.\<close>

definition line_ok :: "string \<Rightarrow> bool" where
  "line_ok l = (CHR 0x0D \<notin> set l \<and> CHR 0x0A \<notin> set l \<and> length l < BUFFER_SIZE - 1 \<and> l \<noteq> [])"

section \<open>Properties\<close>

subsection \<open>Evaluating decimal output\<close>

lemma dec_nat_small: "n < 10 \<Longrightarrow> dec_nat n = [digit_char n]"
  by (simp add: dec_nat.simps)

lemma dec_nat_large:
  "10 \<le> n \<Longrightarrow> dec_nat n = dec_nat (n div 10) @ [digit_char (n mod 10)]"
  by (subst dec_nat.simps) simp

lemmas clib_eval = dec_nat_small dec_nat_large digit_char_def fmt_d_def fmt_02d_def
  atoi_def isSpace_def isDigit_def digit_value_def LONG_MAX_def LONG_MIN_def cstr_def

subsection \<open>Reading back what was printed\<close>

lemma digit_char_props:
  assumes "d < 10"
  shows "isDigit (digit_char d)" and "digit_value (digit_char d) = int d"
    and "\<not> isSpace (digit_char d)" and "digit_char d \<noteq> CHR 0x00"
    and "digit_char d \<noteq> CHR ''-''" and "digit_char d \<noteq> CHR ''+''"
proof -
  from assms have "d \<in> {0, 1, 2, 3, 4, 5, 6, 7, 8, 9}" by auto
  then show "isDigit (digit_char d)" and "digit_value (digit_char d) = int d"
    and "\<not> isSpace (digit_char d)" and "digit_char d \<noteq> CHR 0x00"
    and "digit_char d \<noteq> CHR ''-''" and "digit_char d \<noteq> CHR ''+''"
    by (auto simp: digit_char_def isDigit_def digit_value_def isSpace_def)
qed

lemma dec_nat_chars: "c \<in> set (dec_nat n) \<Longrightarrow> \<exists>d<10. c = digit_char d"
proof (induction n rule: dec_nat.induct)
  case (1 n)
  show ?case
  proof (cases "n < 10")
    case True
    with 1(2) show ?thesis by (auto simp: dec_nat_small)
  next
    case False
    with 1(2) have "c \<in> set (dec_nat (n div 10)) \<or> c = digit_char (n mod 10)"
      by (auto simp: dec_nat_large)
    then show ?thesis
    proof
      assume "c \<in> set (dec_nat (n div 10))"
      from 1(1) [OF False this] show ?thesis .
    next
      assume "c = digit_char (n mod 10)"
      moreover have "n mod 10 < 10" by simp
      ultimately show ?thesis by blast
    qed
  qed
qed

lemma dec_nat_nonempty: "dec_nat n \<noteq> []"
  by (subst dec_nat.simps) simp

lemma dec_nat_hd: "\<exists>d<10. \<exists>r. dec_nat n = digit_char d # r"
proof -
  obtain c r where cr: "dec_nat n = c # r" using dec_nat_nonempty [of n] by (cases "dec_nat n") auto
  then have "c \<in> set (dec_nat n)" by simp
  from dec_nat_chars [OF this] cr show ?thesis by blast
qed

lemma dec_nat_length: "n < 10 ^ k \<Longrightarrow> 0 < k \<Longrightarrow> length (dec_nat n) \<le> k"
proof (induction n arbitrary: k rule: dec_nat.induct)
  case (1 n)
  show ?case
  proof (cases "n < 10")
    case True
    with 1(3) show ?thesis by (simp add: dec_nat_small)
  next
    case False
    then obtain k' where k: "k = Suc k'" using 1(3) by (cases k) auto
    with 1(2) False have "0 < k'" by (cases k') auto
    moreover from 1(2) k have "n div 10 < 10 ^ k'" by (simp add: less_mult_imp_div_less mult.commute)
    ultimately have "length (dec_nat (n div 10)) \<le> k'" using 1(1) [OF False] by simp
    with False k show ?thesis by (simp add: dec_nat_large)
  qed
qed

lemma strtol_digits_dec_nat:
  "strtol_digits acc (dec_nat n @ r)
     = strtol_digits (acc * 10 ^ length (dec_nat n) + int n) r"
proof (induction n arbitrary: acc r rule: dec_nat.induct)
  case (1 n)
  show ?case
  proof (cases "n < 10")
    case True
    then show ?thesis
      by (simp add: dec_nat_small digit_char_props)
  next
    case False
    have d: "isDigit (digit_char (n mod 10))"
      "digit_value (digit_char (n mod 10)) = int (n mod 10)"
      by (simp_all add: digit_char_props)
    have n: "int n = int (n div 10) * 10 + int (n mod 10)" by presburger
    have "strtol_digits acc (dec_nat n @ r)
        = strtol_digits acc (dec_nat (n div 10) @ (digit_char (n mod 10) # r))"
      using False by (simp add: dec_nat_large)
    also have "\<dots> = strtol_digits (acc * 10 ^ length (dec_nat (n div 10)) + int (n div 10))
                        (digit_char (n mod 10) # r)"
      by (rule 1 [OF False])
    also have "\<dots> = strtol_digits
        ((acc * 10 ^ length (dec_nat (n div 10)) + int (n div 10)) * 10 + int (n mod 10)) r"
      using d by simp
    also have "(acc * 10 ^ length (dec_nat (n div 10)) + int (n div 10)) * 10 + int (n mod 10)
        = acc * 10 ^ length (dec_nat n) + int n"
      using False by (simp add: dec_nat_large n algebra_simps)
    finally show ?thesis .
  qed
qed

lemma atoi_fmt_d:
  assumes "LONG_MIN \<le> i" and "i \<le> LONG_MAX"
  shows "atoi (fmt_d i) = i"
proof (cases "i < 0")
  case True
  have "strtol_digits 0 (dec_nat (nat (- i)) @ []) = int (nat (- i))"
    by (simp only: strtol_digits_dec_nat) simp
  with True assms show ?thesis
    by (simp add: atoi_def fmt_d_def isSpace_def)
next
  case False
  obtain d r where dr: "d < 10" "dec_nat (nat i) = digit_char d # r"
    using dec_nat_hd by blast
  have v: "strtol_digits 0 (dec_nat (nat i) @ []) = int (nat i)"
    by (simp only: strtol_digits_dec_nat) simp
  have "atoi (dec_nat (nat i)) = min LONG_MAX (strtol_digits 0 (dec_nat (nat i)))"
    using dr digit_char_props [OF dr(1)] by (simp add: atoi_def)
  with False assms v show ?thesis by (simp add: fmt_d_def)
qed

subsection \<open>Camera power\<close>

text \<open>
  Claim C1. For every \<open>onOff\<close>, \<open>force\<close> and presumed power state, \<^verbatim>\<open>Camera::setPower\<close>
  leaves the presumed state equal to \<open>onOff\<close> and only adds hardware calls to the trace.
  When \<open>force\<close> is set, or the presumed state differs from \<open>onOff\<close>, the calls it adds
  raise the camera toggle line exactly once and latch the intensifier relay to \<open>onOff\<close>
  (one pulse on the set line to switch on, one on the unset line to switch off),
  whatever the relay held before. Otherwise nothing changes at all.
\<close>

theorem setPower_truth_table:
  "powerStatus (setPower onOff force c) = onOff \<and>
   hw (setPower onOff force c) = hw c @ new_events c (setPower onOff force c) \<and>
   (if force \<or> powerStatus c \<noteq> onOff
    then pulses CAMERA_POWER_SET_PIN (new_events c (setPower onOff force c)) = 1
       \<and> pulses INTENSIFIER_POWER_SET_PIN (new_events c (setPower onOff force c))
           = (if onOff then 1 else 0)
       \<and> pulses INTENSIFIER_POWER_UNSET_PIN (new_events c (setPower onOff force c))
           = (if onOff then 0 else 1)
       \<and> intensifier_after (new_events c (setPower onOff force c)) b = onOff
    else setPower onOff force c = c)"
  by (cases onOff; cases force; cases "powerStatus c")
     (simp_all add: setPower_def new_events_def pulses_def relay_pulse_def pin_defs)

text \<open>
  The forced power-off of a camera presumed off already: one toggle pulse, intensifier
  unset, presumed state off.
\<close>

theorem setPower_truth_table_witness:
  "powerStatus (setPower False True \<lparr>powerStatus = False, hw = []\<rparr>) = False \<and>
   pulses CAMERA_POWER_SET_PIN (hw (setPower False True \<lparr>powerStatus = False, hw = []\<rparr>)) = 1 \<and>
   intensifier_after (hw (setPower False True \<lparr>powerStatus = False, hw = []\<rparr>)) True = False"
  using setPower_truth_table [of False True "\<lparr>powerStatus = False, hw = []\<rparr>" True]
  by (simp add: new_events_def)

subsection \<open>Shutter trips\<close>

lemma snap_loop_eq:
  "snap_loop i n tr = tr @ concat (replicate (unat n - unat i) shutter_trip)"
proof (induction i n tr rule: snap_loop.induct)
  case (1 i n tr)
  show ?case
  proof (cases "i < n")
    case True
    then have lt: "unat i < unat n" by (simp add: word_less_nat_alt)
    moreover have "unat n < 256"
      using unsigned_less [of n, where ?'a = nat] by simp
    ultimately have suc: "unat (i + 1) = unat i + 1"
      by (simp add: unat_word_ariths)
    have "unat n - unat i = Suc (unat n - unat (i + 1))"
      using lt suc by simp
    then show ?thesis
      using 1 True by (simp add: snap_loop.simps [of i n tr])
  next
    case False
    then have "unat n - unat i = 0" by (simp add: word_less_nat_alt)
    with False show ?thesis by (simp add: snap_loop.simps [of i n tr])
  qed
qed

lemma pulses_trips:
  "pulses CAMERA_SHUTTER_PIN (concat (replicate k shutter_trip)) = k"
  by (induction k) (simp_all add: pulses_def shutter_trip_def)

text \<open>
  Claim C2 says that a capture with burst size \<open>b\<close> trips the shutter \<open>b\<close> times and that
  \<open>b \<le> 1\<close> gives exactly one trip. For \<open>b = 0\<close> the two cannot both hold, and the code
  takes the first: with the camera presumed on, \<^verbatim>\<open>Camera::snap(0)\<close> does not run its loop
  body and the shutter is not tripped.
\<close>

theorem snap_zero_no_trip:
  "(0 :: 8 word) \<le> 1 \<and>
   pulses CAMERA_SHUTTER_PIN (hw (snap 0 \<lparr>powerStatus = True, hw = []\<rparr>)) = 0"
  by (simp add: snap_def snap_loop.simps pulses_def)

text \<open>
  Claim C2, amended. With the camera presumed on, \<^verbatim>\<open>Camera::snap(b)\<close> trips the shutter
  exactly \<open>b\<close> times for every 8-bit \<open>b\<close>, zero included; each trip is the shutter pin
  raised for the relay delay (10 ms), lowered, and a recovery delay (50 ms). With the
  camera presumed off it does nothing. The rule that a count of at most one means one image
  belongs to the \<^verbatim>\<open>snap\<close> command: an explicit argument that reads as 0 or 1 asks for one
  image.
\<close>

theorem snap_trips:
  "(powerStatus c \<longrightarrow>
      hw (snap b c) = hw c @ concat (replicate (unat b) shutter_trip) \<and>
      pulses CAMERA_SHUTTER_PIN (new_events c (snap b c)) = unat b \<and>
      powerStatus (snap b c)) \<and>
   (\<not> powerStatus c \<longrightarrow> snap b c = c) \<and>
   (arg \<noteq> [] \<and> (word_of_int (atoi arg) :: 16 word) \<le> 1 \<longrightarrow> snap_command_images arg d = 1)"
  by (simp add: snap_def snap_loop_eq new_events_def pulses_trips snap_command_images_def)

theorem snap_trips_witness:
  "hw (snap 3 \<lparr>powerStatus = True, hw = []\<rparr>) = concat (replicate 3 shutter_trip) \<and>
   snap 3 \<lparr>powerStatus = False, hw = []\<rparr> = \<lparr>powerStatus = False, hw = []\<rparr> \<and>
   snap_command_images ''0'' running_device = 1"
proof -
  have a: "''0'' \<noteq> [] \<and> (word_of_int (atoi ''0'') :: 16 word) \<le> 1"
    by (simp add: clib_eval)
  show ?thesis
    using snap_trips [of "\<lparr>powerStatus = True, hw = []\<rparr>" 3 "''0''" running_device]
          snap_trips [of "\<lparr>powerStatus = False, hw = []\<rparr>" 3 "''0''" running_device] a
    by simp
qed

subsection \<open>Start/stop switch\<close>

text \<open>
  A query resets the counter, so a second query right after it answers no; after a counted
  press the two answers are yes, then no.
\<close>

lemma isStartStopPressed_twice:
  "fst (isStartStopPressed (snd (isStartStopPressed s))) = False"
  by (simp add: isStartStopPressed_def)

lemma consume_press_true_then_false:
  "count s \<noteq> 0 \<Longrightarrow> run_switch [Query, Query] s = [True, False]"
  by (simp add: isStartStopPressed_def word_greater_zero_iff)

text \<open>
  Claim C9. After one debounced press, two successive queries answer yes and then no, and
  each physical press makes the query answer yes at most once. The first half holds
  (\<open>consume_press_true_then_false\<close>, and the first two answers below). The second half
  fails on the code: \<^verbatim>\<open>Switches::update\<close> tests \<open>previousSteadyState \<noteq> lastSteadyState\<close>
  on every tick, also on ticks that do not lock a new steady state in, so the release that
  was counted at 2060 ms is counted again on each tick of the 50 ms after the next change
  of the pin. In the run below the switch goes down twice and up once, and the query
  answers yes three times.
\<close>

theorem press_reported_again:
  "run_switch ideal_switch_run (switches_init 1) = [True, False, True, True] \<and>
   edges 1 0 (1 # readings ideal_switch_run) = 2 \<and>
   edges 0 1 (1 # readings ideal_switch_run) = 1"
  by (simp add: ideal_switch_run_def switches_init_def update_def isStartStopPressed_def
        SWITCH_DEBOUNCE_PERIOD_def SWITCH_UP_def Let_def)

subsection \<open>Sensor readers without a sensor\<close>

lemma getInertia_absent:
  "\<not> isInertiaSensorPresent flags \<Longrightarrow>
   getInertia flags ev out
     = out\<lparr>accel := (0, 0, 0), mag := (0, 0, 0), gyro := (0, 0, 0)\<rparr>"
  by (simp add: getInertia_def)

lemma getWaterPressure_absent:
  "\<not> isPressureSensorPresent flags \<Longrightarrow> getWaterPressure flags r = (0, 0)"
  by (simp add: getWaterPressure_def)

lemma getWaterTemperature_absent:
  "\<not> isTemperatureSensorPresent flags \<Longrightarrow> getWaterTemperature flags t = 0"
  by (simp add: getWaterTemperature_def)

text \<open>
  Claim C7. Every reader returns all-zero outputs when its sensor is absent. The pressure
  and water temperature readers do, and \<^verbatim>\<open>getInertia\<close> zeroes its three vectors, but it
  returns before assigning its fourth output, the device temperature: with no sensor
  initialised, a caller whose temperature variable holds 25 gets 25 back.
\<close>

theorem getInertia_absent_keeps_temp:
  "\<not> isInertiaSensorPresent 0 \<and>
   temp (getInertia 0 ev \<lparr>accel = (1, 2, 3), mag = (4, 5, 6), gyro = (7, 8, 9), temp = 25\<rparr>)
     = 25"
  by (simp add: getInertia_def isInertiaSensorPresent_def)

subsection \<open>Commands during a run\<close>

text \<open>
  Four of the five command families test for \<^verbatim>\<open>SOFTWARE_RUNNING\<close> themselves: given an
  argument during a run, each prints its own refusal and does nothing else.
\<close>

lemma running_rejects:
  assumes "softwareStatus d = SOFTWARE_RUNNING" and "arg \<noteq> []"
  shows "lasermode_command rc arg d
           = print (''Cannot change laser mode while imaging is in progress.'' @ CRLF) d"
    and "burstsize_command rc arg d
           = print (''Cannot change burst size while imaging is progress.'' @ CRLF) d"
    and "camera_command arg d
           = print (''Cannot change camera on/off while imaging is in progress.'' @ CRLF) d"
    and "laser_command arg d
           = print (''Cannot change laser on/off while imaging is in progress.'' @ CRLF) d"
  using assms
  by (simp_all add: lasermode_command_def burstsize_command_def camera_command_def
        laser_command_def)

lemma dispatch_running_guarded:
  assumes "softwareStatus d = SOFTWARE_RUNNING"
    and "parseLine line = (command, arg)" and "arg \<noteq> []"
  shows "command = ''lasermode'' \<Longrightarrow> dispatch rc line d
           = Some (print (''Cannot change laser mode while imaging is in progress.'' @ CRLF) d)"
    and "command = ''burstsize'' \<Longrightarrow> dispatch rc line d
           = Some (print (''Cannot change burst size while imaging is progress.'' @ CRLF) d)"
    and "command = ''camera'' \<Longrightarrow> dispatch rc line d
           = Some (print (''Cannot change camera on/off while imaging is in progress.'' @ CRLF) d)"
    and "command = ''laser'' \<Longrightarrow> dispatch rc line d
           = Some (print (''Cannot change laser on/off while imaging is in progress.'' @ CRLF) d)"
  using assms(2) by (simp_all add: dispatch_def running_rejects [OF assms(1) assms(3)])

lemma print_keeps_settings:
  "frameInterval (print msg d) = frameInterval d \<and> burstSize (print msg d) = burstSize d \<and>
   laserContinuous (print msg d) = laserContinuous d \<and> cam (print msg d) = cam d \<and>
   las (print msg d) = las d \<and> softwareStatus (print msg d) = softwareStatus d"
  by (simp add: print_def)

text \<open>
  The \<^verbatim>\<open>interval\<close> command has no such test of its own. It hands the number to
  \<^verbatim>\<open>setFrameInterval\<close> in every software state, and when that returns false it prints
  the one refusal it has and leaves the device as the controller left it.
\<close>

lemma fmt_d_minimum: "fmt_d (sint MINIMUM_FRAME_INTERVAL) = ''200''"
  by (simp add: MINIMUM_FRAME_INTERVAL_def fmt_d_def dec_nat_small dec_nat_large
        digit_char_def)

lemma dispatch_interval_refused:
  assumes "parseLine line = (''interval'', arg)" and "arg \<noteq> []"
    and "setFrameInterval rc (word_of_int (atoi arg)) d = (False, d')"
  shows "dispatch rc line d
           = Some (print (''Bad interval. Use >= 200 ms or 0 to reset to default.'' @ CRLF) d')"
  using assms by (simp add: dispatch_def interval_command_def fmt_d_minimum)

lemma spec_setFrameInterval_running:
  "softwareStatus d = SOFTWARE_RUNNING \<Longrightarrow> spec_setFrameInterval n d = (False, d)"
  by (simp add: spec_setFrameInterval_def)

text \<open>
  Outside a run that controller takes \<^verbatim>\<open>interval 500\<close>: the refusal during a run comes
  from the software status, not from the number.
\<close>

lemma parseLine_interval_500: "parseLine ''interval 500'' = (''interval'', ''500'')"
  by (simp add: parseLine_def clib_eval)

lemma parseLine_laser_on: "parseLine ''laser on'' = (''laser'', ''on'')"
  by (simp add: parseLine_def clib_eval)

lemma atoi_500: "atoi ''500'' = 500"
  by (simp add: clib_eval)

lemma spec_setFrameInterval_500:
  "spec_setFrameInterval 500 ready_device = (True, ready_device\<lparr>frameInterval := 500\<rparr>)"
  by (simp add: spec_setFrameInterval_def MINIMUM_FRAME_INTERVAL_def ready_device_def
        SOFTWARE_READY_def SOFTWARE_RUNNING_def)

lemma fmt_d_500: "fmt_d 500 = ''500''"
  by (simp add: fmt_d_def dec_nat_small dec_nat_large digit_char_def)

lemma interval_accepted_when_ready:
  "dispatch sample_controller ''interval 500'' ready_device
     = Some (ready_device\<lparr> frameInterval := 500,
                            serial := [''Frame interval set to 500 ms'' @ CRLF] \<rparr>)"
proof -
  have "frameInterval (ready_device\<lparr>frameInterval := 500\<rparr>) = 500" by simp
  then show ?thesis
    by (simp add: dispatch_def parseLine_interval_500 atoi_500 interval_command_def
          sample_controller_def spec_setFrameInterval_500 fmt_d_500 print_def)
       (simp add: ready_device_def running_device_def)
qed

text \<open>
  Claim C6. During a run every command that changes settings or actuator power is refused
  with a message and changes nothing. Given with an argument while the software status is
  \<^verbatim>\<open>SOFTWARE_RUNNING\<close>, each of \<^verbatim>\<open>interval\<close>, \<^verbatim>\<open>burstsize\<close>, \<^verbatim>\<open>lasermode\<close>, \<^verbatim>\<open>camera\<close>
  and \<^verbatim>\<open>laser\<close> adds one line to the serial output and leaves every other part of the
  device, the three settings and the power states of camera and laser among them, as it
  was. For \<^verbatim>\<open>burstsize\<close>, \<^verbatim>\<open>lasermode\<close>, \<^verbatim>\<open>camera\<close> and \<^verbatim>\<open>laser\<close> this holds with any
  controller, the test being in the dispatcher; for \<^verbatim>\<open>interval\<close> it holds with a
  \<^verbatim>\<open>setFrameInterval\<close> that refuses during a run, as the spec has it, and the line
  printed is the dispatcher's answer to any refused interval.
\<close>

theorem running_rejects_changes:
  "softwareStatus d = SOFTWARE_RUNNING \<and> parseLine line = (command, arg) \<and> arg \<noteq> [] \<longrightarrow>
     (command = ''interval'' \<longrightarrow>
        dispatch (rc\<lparr>setFrameInterval := spec_setFrameInterval\<rparr>) line d
          = Some (d\<lparr> serial := serial d @
                    [''Bad interval. Use >= 200 ms or 0 to reset to default.''
                     @ [CHR 0x0D, CHR 0x0A]] \<rparr>)) \<and>
     (command = ''burstsize'' \<longrightarrow>
        dispatch rc line d
          = Some (d\<lparr> serial := serial d @
                    [''Cannot change burst size while imaging is progress.''
                     @ [CHR 0x0D, CHR 0x0A]] \<rparr>)) \<and>
     (command = ''lasermode'' \<longrightarrow>
        dispatch rc line d
          = Some (d\<lparr> serial := serial d @
                    [''Cannot change laser mode while imaging is in progress.''
                     @ [CHR 0x0D, CHR 0x0A]] \<rparr>)) \<and>
     (command = ''camera'' \<longrightarrow>
        dispatch rc line d
          = Some (d\<lparr> serial := serial d @
                    [''Cannot change camera on/off while imaging is in progress.''
                     @ [CHR 0x0D, CHR 0x0A]] \<rparr>)) \<and>
     (command = ''laser'' \<longrightarrow>
        dispatch rc line d
          = Some (d\<lparr> serial := serial d @
                    [''Cannot change laser on/off while imaging is in progress.''
                     @ [CHR 0x0D, CHR 0x0A]] \<rparr>))"
proof (intro impI conjI)
  assume a: "softwareStatus d = SOFTWARE_RUNNING \<and> parseLine line = (command, arg) \<and> arg \<noteq> []"
  then have run: "softwareStatus d = SOFTWARE_RUNNING" and p: "parseLine line = (command, arg)"
    and arg: "arg \<noteq> []" by simp_all
  note g = dispatch_running_guarded [OF run p arg, of rc]
  {
    assume c: "command = ''interval''"
    let ?rc = "rc\<lparr>setFrameInterval := spec_setFrameInterval\<rparr>"
    have "setFrameInterval ?rc (word_of_int (atoi arg)) d = (False, d)"
      using run by (simp add: spec_setFrameInterval_running)
    from dispatch_interval_refused [OF p [unfolded c] arg this]
    show "dispatch ?rc line d
          = Some (d\<lparr> serial := serial d @
                    [''Bad interval. Use >= 200 ms or 0 to reset to default.''
                     @ [CHR 0x0D, CHR 0x0A]] \<rparr>)"
      by (simp add: print_def CRLF_def)
  }
  {
    assume "command = ''burstsize''"
    from g(2) [OF this]
    show "dispatch rc line d
          = Some (d\<lparr> serial := serial d @
                    [''Cannot change burst size while imaging is progress.''
                     @ [CHR 0x0D, CHR 0x0A]] \<rparr>)"
      by (simp add: print_def CRLF_def)
  }
  {
    assume "command = ''lasermode''"
    from g(1) [OF this]
    show "dispatch rc line d
          = Some (d\<lparr> serial := serial d @
                    [''Cannot change laser mode while imaging is in progress.''
                     @ [CHR 0x0D, CHR 0x0A]] \<rparr>)"
      by (simp add: print_def CRLF_def)
  }
  {
    assume "command = ''camera''"
    from g(3) [OF this]
    show "dispatch rc line d
          = Some (d\<lparr> serial := serial d @
                    [''Cannot change camera on/off while imaging is in progress.''
                     @ [CHR 0x0D, CHR 0x0A]] \<rparr>)"
      by (simp add: print_def CRLF_def)
  }
  {
    assume "command = ''laser''"
    from g(4) [OF this]
    show "dispatch rc line d
          = Some (d\<lparr> serial := serial d @
                    [''Cannot change laser on/off while imaging is in progress.''
                     @ [CHR 0x0D, CHR 0x0A]] \<rparr>)"
      by (simp add: print_def CRLF_def)
  }
qed

text \<open>
  In the middle of a run with a frame interval of 1000 ms, \<^verbatim>\<open>interval 500\<close> and
  \<^verbatim>\<open>laser on\<close> are answered with one line each and change nothing else.
\<close>

theorem running_rejects_changes_witness:
  "softwareStatus running_device = SOFTWARE_RUNNING \<and>
   frameInterval running_device = 1000 \<and>
   dispatch sample_controller ''interval 500'' running_device
     = Some (running_device\<lparr> serial :=
               [''Bad interval. Use >= 200 ms or 0 to reset to default.''
                @ [CHR 0x0D, CHR 0x0A]] \<rparr>) \<and>
   dispatch sample_controller ''laser on'' running_device
     = Some (running_device\<lparr> serial :=
               [''Cannot change laser on/off while imaging is in progress.''
                @ [CHR 0x0D, CHR 0x0A]] \<rparr>)"
proof -
  have run: "softwareStatus running_device = SOFTWARE_RUNNING"
    and fi: "frameInterval running_device = 1000"
    and se: "serial running_device = []"
    by (simp_all add: running_device_def)
  have rc: "sample_controller\<lparr>setFrameInterval := spec_setFrameInterval\<rparr> = sample_controller"
    by (simp add: sample_controller_def)
  have a: "softwareStatus running_device = SOFTWARE_RUNNING \<and>
      parseLine ''interval 500'' = (''interval'', ''500'') \<and> ''500'' \<noteq> []"
    using run parseLine_interval_500 by simp
  have b: "softwareStatus running_device = SOFTWARE_RUNNING \<and>
      parseLine ''laser on'' = (''laser'', ''on'') \<and> ''on'' \<noteq> []"
    using run parseLine_laser_on by simp
  note i = running_rejects_changes [rule_format, OF a, of sample_controller,
      THEN conjunct1, rule_format, OF refl, unfolded rc se]
  note l = running_rejects_changes [rule_format, OF b, of sample_controller,
      THEN conjunct2, THEN conjunct2, THEN conjunct2, THEN conjunct2, rule_format, OF refl,
      unfolded se]
  from run fi i l show ?thesis by simp
qed

subsection \<open>The data log: basic facts\<close>

lemma of_nat_32_inj:
  assumes "(of_nat a :: 32 word) = of_nat b" and "a < 2 ^ 32" and "b < 2 ^ 32"
  shows "a = b"
proof -
  from assms(1) have "unat (of_nat a :: 32 word) = unat (of_nat b :: 32 word)" by simp
  with assms(2,3) show ?thesis by (simp add: unat_of_nat)
qed

text \<open>
  A \<^verbatim>\<open>write\<close> that returns the length it was given has stored the whole buffer. The
  bound on the length rules out that the \<open>-1\<close> of a failed write is taken for a length.
\<close>

lemma write_returns_full:
  assumes "write_returns r buf = of_nat (length buf)" and "length buf < BUFFER_SIZE"
  shows "stored_bytes r buf = buf"
proof (cases r)
  case (Wrote k)
  from assms(2) have b: "length buf < 2 ^ 32" by (simp add: BUFFER_SIZE_def)
  then have "length (take k buf) < 2 ^ 32" by simp
  with assms(1) Wrote b have "length (take k buf) = length buf"
    by (auto simp: write_returns_def intro: of_nat_32_inj)
  then have "length buf \<le> k" by simp
  then have "take k buf = buf" by simp
  with Wrote show ?thesis by (simp add: stored_bytes_def)
next
  case (WriteFailed k)
  with assms(1) have "unat (- 1 :: 32 word) = unat (of_nat (length buf) :: 32 word)"
    by (simp add: write_returns_def)
  moreover from assms(2) have "length buf < 2 ^ 32" by (simp add: BUFFER_SIZE_def)
  moreover have "unat (- 1 :: 32 word) = 4294967295"
    by (simp add: unsigned_minus_1_eq_mask mask_eq_exp_minus_1)
  ultimately have "length buf = 4294967295"
    by (simp add: unat_of_nat)
  with assms(2) show ?thesis by (simp add: BUFFER_SIZE_def)
qed

lemma writeDataLog_closed:
  "logFile fs = None \<Longrightarrow> writeDataLog pf e io fs = (False, fs)"
  by (simp add: writeDataLog_def isDataLogOpen_def)

lemma writeDataLogHeader_closed:
  "logFile fs = None \<Longrightarrow> writeDataLogHeader io fs = (False, fs)"
  by (simp add: writeDataLogHeader_def isDataLogOpen_def)

lemma writeDataLog_False:
  "writeDataLog pf e io fs = (False, fs') \<Longrightarrow>
   (logFile fs = None \<and> fs' = fs) \<or>
   (logFile fs \<noteq> None \<and> logFile fs' = None \<and> numberOfDataLogEntries fs' = 0)"
  by (auto simp: writeDataLog_def isDataLogOpen_def logFile_write_def Let_def
        write_failure_def split: if_splits)

lemma writeDataLogHeader_False:
  "writeDataLogHeader io fs = (False, fs') \<Longrightarrow>
   (logFile fs = None \<and> fs' = fs) \<or>
   (logFile fs \<noteq> None \<and> logFile fs' = None \<and> numberOfDataLogEntries fs' = 0)"
  by (auto simp: writeDataLogHeader_def isDataLogOpen_def logFile_write_def Let_def
        write_failure_def split: if_splits)

lemma create_data_log_False:
  "create_data_log io fs = (False, fs') \<Longrightarrow> logFile fs = None \<Longrightarrow> logFile fs' = None"
  by (auto simp: create_data_log_def Let_def isDataLogOpen_def sd_remove_def
        writeDataLogHeader_def logFile_write_def write_failure_def sd_create_def
        split: if_splits prod.splits)

lemma newDataLog_loop_False:
  "newDataLog_loop i io fs = (False, fs') \<Longrightarrow> logFile fs = None \<Longrightarrow> logFile fs' = None"
proof (induction i io fs rule: newDataLog_loop.induct)
  case (1 i io fs)
  then show ?case
    by (subst (asm) newDataLog_loop.simps)
       (auto simp: Let_def split: if_splits dest: create_data_log_False)
qed

lemma newDataLog_False:
  "newDataLog io fs = (False, fs') \<Longrightarrow> logFile fs = None \<Longrightarrow> logFile fs' = None"
  by (auto simp: newDataLog_def split: if_splits dest: newDataLog_loop_False)

text \<open>With the log closed, nothing but a successful \<^verbatim>\<open>newDataLog\<close> lets a write through.\<close>

lemma writes_refused_closed: "logFile fs = None \<Longrightarrow> writes_refused calls fs"
proof (induction calls arbitrary: fs)
  case Nil
  then show ?case by simp
next
  case (Cons c calls)
  show ?case
  proof (cases c)
    case (WriteDataLog pf e io)
    with Cons show ?thesis by (simp add: writeDataLog_closed)
  next
    case (NewDataLog io)
    obtain ok fs' where r: "newDataLog io fs = (ok, fs')" by (cases "newDataLog io fs")
    show ?thesis
    proof (cases ok)
      case True
      with r NewDataLog show ?thesis by simp
    next
      case False
      with r Cons.prems have "logFile fs' = None" by (auto dest: newDataLog_False)
      with Cons.IH r NewDataLog show ?thesis by simp
    qed
  next
    case CloseDataLog
    with Cons show ?thesis by (simp add: closeDataLog_def)
  qed
qed

text \<open>The search of \<^verbatim>\<open>newDataLog\<close> and the creation of the file.\<close>

lemma data_log_header_length: "length data_log_header = 288"
  by (simp add: data_log_header_def csv_line_def DATA_LOG_COLUMNS_def quoted_def CRLF_def)

lemma newDataLog_loop_first_free:
  assumes "i \<le> k" and "k < MAX_LOG_FILES" and "files fs (data_log_filename k) = None"
    and "\<forall>j. i \<le> j \<and> j < k \<longrightarrow> files fs (data_log_filename j) \<noteq> None"
  shows "newDataLog_loop i io fs = create_data_log io (fs\<lparr>sharedFilename := data_log_filename k\<rparr>)"
  using assms
proof (induction i io fs rule: newDataLog_loop.induct)
  case (1 i io fs)
  show ?case
  proof (cases "i = k")
    case True
    with 1(3,4) show ?thesis
      by (subst newDataLog_loop.simps) (simp add: sd_exists_def)
  next
    case False
    with 1(2) have lt: "i < k" by simp
    with 1(3) have im: "i < MAX_LOG_FILES" by simp
    from lt 1(5) have ex: "(files fs (data_log_filename i) = None) = False" by simp
    have "newDataLog_loop (i + 1) io (fs\<lparr>sharedFilename := data_log_filename i\<rparr>)
          = create_data_log io (fs\<lparr>sharedFilename := data_log_filename i\<rparr>\<lparr>sharedFilename := data_log_filename k\<rparr>)"
      using 1(1) [OF im refl] lt 1(3,4,5) by (simp add: sd_exists_def ex)
    then show ?thesis
      using im by (subst newDataLog_loop.simps) (simp add: sd_exists_def ex Let_def)
  qed
qed

lemma newDataLog_loop_all_exist:
  assumes "\<forall>j. i \<le> j \<and> j < MAX_LOG_FILES \<longrightarrow> files fs (data_log_filename j) \<noteq> None"
  shows "fst (newDataLog_loop i io fs) = False \<and>
         files (snd (newDataLog_loop i io fs)) = files fs \<and>
         logFile (snd (newDataLog_loop i io fs)) = logFile fs \<and>
         localErrorCode (snd (newDataLog_loop i io fs)) = FS_ERROR_TOO_MANY_LOG_FILES"
  using assms
proof (induction i io fs rule: newDataLog_loop.induct)
  case (1 i io fs)
  show ?case
  proof (cases "i < MAX_LOG_FILES")
    case True
    with 1(2) have ex: "(files fs (data_log_filename i) = None) = False" by simp
    have "fst (newDataLog_loop (i + 1) io (fs\<lparr>sharedFilename := data_log_filename i\<rparr>)) = False \<and>
         files (snd (newDataLog_loop (i + 1) io (fs\<lparr>sharedFilename := data_log_filename i\<rparr>))) = files (fs\<lparr>sharedFilename := data_log_filename i\<rparr>) \<and>
         logFile (snd (newDataLog_loop (i + 1) io (fs\<lparr>sharedFilename := data_log_filename i\<rparr>))) = logFile (fs\<lparr>sharedFilename := data_log_filename i\<rparr>) \<and>
         localErrorCode (snd (newDataLog_loop (i + 1) io (fs\<lparr>sharedFilename := data_log_filename i\<rparr>))) = FS_ERROR_TOO_MANY_LOG_FILES"
      using 1(1) [OF True refl] 1(2) by (simp add: sd_exists_def ex)
    then show ?thesis
      using True by (subst (1 2 3 4) newDataLog_loop.simps) (simp add: sd_exists_def ex Let_def)
  next
    case False
    then show ?thesis by (subst (1 2 3 4) newDataLog_loop.simps) simp
  qed
qed

lemma create_data_log_result:
  assumes "files fs (sharedFilename fs) = None" and "logFile fs = None"
  shows "fst (create_data_log io fs)
           = (open_ok io \<and>
              write_returns (write_res io) data_log_header = of_nat (length data_log_header) \<and>
              sync_ok io)"
    and "fst (create_data_log io fs) \<Longrightarrow>
         snd (create_data_log io fs)
           = fs\<lparr> files := (files fs)(sharedFilename fs \<mapsto> data_log_header),
                  logFile := Some (sharedFilename fs),
                  sharedBuffer := data_log_header,
                  writeCalls := writeCalls fs + 1 \<rparr>"
    and "files (snd (create_data_log io fs))
           = (if fst (create_data_log io fs)
              then (files fs)(sharedFilename fs \<mapsto> data_log_header)
              else if remove_ok io \<or> \<not> open_ok io then files fs
              else (files fs)(sharedFilename fs \<mapsto>
                      stored_bytes (write_res io) data_log_header))"
    and "sharedFilename (snd (create_data_log io fs)) = sharedFilename fs"
proof -
  have len: "length data_log_header < BUFFER_SIZE"
    by (simp add: data_log_header_length BUFFER_SIZE_def)
  have full: "write_returns (write_res io) data_log_header = of_nat (length data_log_header)
      \<Longrightarrow> stored_bytes (write_res io) data_log_header = data_log_header"
    using len by (rule write_returns_full [rotated])
  show "fst (create_data_log io fs)
           = (open_ok io \<and>
              write_returns (write_res io) data_log_header = of_nat (length data_log_header) \<and>
              sync_ok io)"
    using assms
    by (auto simp: create_data_log_def Let_def isDataLogOpen_def sd_remove_def
        writeDataLogHeader_def logFile_write_def write_failure_def sd_create_def sd_exists_def
        split: if_splits prod.splits)
  show "fst (create_data_log io fs) \<Longrightarrow>
         snd (create_data_log io fs)
           = fs\<lparr> files := (files fs)(sharedFilename fs \<mapsto> data_log_header),
                  logFile := Some (sharedFilename fs),
                  sharedBuffer := data_log_header,
                  writeCalls := writeCalls fs + 1 \<rparr>"
    using assms full
    by (auto simp: create_data_log_def Let_def isDataLogOpen_def sd_remove_def
        writeDataLogHeader_def logFile_write_def write_failure_def sd_create_def sd_exists_def
        file_bytes_def split: if_splits prod.splits)
  show "files (snd (create_data_log io fs))
           = (if fst (create_data_log io fs)
              then (files fs)(sharedFilename fs \<mapsto> data_log_header)
              else if remove_ok io \<or> \<not> open_ok io then files fs
              else (files fs)(sharedFilename fs \<mapsto>
                      stored_bytes (write_res io) data_log_header))"
    using assms full
    by (auto simp: create_data_log_def Let_def isDataLogOpen_def sd_remove_def
        writeDataLogHeader_def logFile_write_def write_failure_def sd_create_def sd_exists_def
        file_bytes_def split: if_splits prod.splits)
  show "sharedFilename (snd (create_data_log io fs)) = sharedFilename fs"
    by (auto simp: create_data_log_def Let_def isDataLogOpen_def sd_remove_def
        writeDataLogHeader_def logFile_write_def write_failure_def sd_create_def sd_exists_def
        split: if_splits prod.splits)
qed

text \<open>What a successful append does, and what a run of successful appends leaves.\<close>

lemma writeDataLog_True:
  assumes "writeDataLog pf e io fs = (True, fs')" and "length (data_log_row pf e) < BUFFER_SIZE"
  shows "fs' = fs\<lparr> sharedBuffer := data_log_row pf e,
                   files := (files fs)(the (logFile fs) \<mapsto>
                              file_bytes fs (the (logFile fs)) @ data_log_row pf e),
                   writeCalls := writeCalls fs + 1,
                   numberOfDataLogEntries := numberOfDataLogEntries fs + 1 \<rparr>"
    and "logFile fs \<noteq> None"
proof -
  have full: "write_returns (write_res io) (data_log_row pf e) = of_nat (length (data_log_row pf e))
      \<Longrightarrow> stored_bytes (write_res io) (data_log_row pf e) = data_log_row pf e"
    using assms(2) by (rule write_returns_full [rotated])
  from assms(1) show "logFile fs \<noteq> None"
    by (auto simp: writeDataLog_def isDataLogOpen_def split: if_splits)
  from assms(1) full show "fs' = fs\<lparr> sharedBuffer := data_log_row pf e,
                   files := (files fs)(the (logFile fs) \<mapsto>
                              file_bytes fs (the (logFile fs)) @ data_log_row pf e),
                   writeCalls := writeCalls fs + 1,
                   numberOfDataLogEntries := numberOfDataLogEntries fs + 1 \<rparr>"
    by (auto simp: writeDataLog_def isDataLogOpen_def logFile_write_def Let_def file_bytes_def
          split: if_splits)
qed

lemma write_entries_content:
  assumes "write_entries pf es fs = (True, fs')"
    and "\<forall>x \<in> set es. length (data_log_row pf (fst x)) < BUFFER_SIZE"
    and "logFile fs = Some name"
  shows "logFile fs' = Some name \<and>
         file_bytes fs' name = file_bytes fs name @ concat (map (\<lambda>x. data_log_row pf (fst x)) es) \<and>
         (es \<noteq> [] \<longrightarrow> files fs' name \<noteq> None) \<and>
         numberOfDataLogEntries fs' = numberOfDataLogEntries fs + of_nat (length es)"
  using assms
proof (induction es arbitrary: fs)
  case Nil
  then show ?case by simp
next
  case (Cons x es)
  obtain e io where x: "x = (e, io)" by (cases x)
  obtain ok fs1 where w: "writeDataLog pf e io fs = (ok, fs1)" by (cases "writeDataLog pf e io fs")
  with Cons.prems(1) x have ok: "ok" and rest: "write_entries pf es fs1 = (True, fs')"
    by (auto split: if_splits)
  from Cons.prems(2) x have len: "length (data_log_row pf e) < BUFFER_SIZE" by simp
  note t = writeDataLog_True [OF w [unfolded ok [THEN eqTrueI]] len]
  have l1: "logFile fs1 = Some name" using t(1) Cons.prems(3) by simp
  have f1: "file_bytes fs1 name = file_bytes fs name @ data_log_row pf e"
    using t(1) Cons.prems(3) by (simp add: file_bytes_def)
  have n1: "numberOfDataLogEntries fs1 = numberOfDataLogEntries fs + 1"
    using t(1) by simp
  have s1: "files fs1 name \<noteq> None" using t(1) Cons.prems(3) by simp
  from Cons.prems(2) have "\<forall>x \<in> set es. length (data_log_row pf (fst x)) < BUFFER_SIZE" by simp
  from Cons.IH [OF rest this l1] 
  have ih: "logFile fs' = Some name"
    "file_bytes fs' name = file_bytes fs1 name @ concat (map (\<lambda>x. data_log_row pf (fst x)) es)"
    "es \<noteq> [] \<longrightarrow> files fs' name \<noteq> None"
    "numberOfDataLogEntries fs' = numberOfDataLogEntries fs1 + of_nat (length es)"
    by simp_all
  have "files fs' name \<noteq> None"
  proof (cases es)
    case Nil
    with rest s1 show ?thesis by simp
  next
    case (Cons a list)
    with ih(3) show ?thesis by simp
  qed
  with ih f1 n1 x show ?case by simp
qed

lemma newDataLog_first_free:
  assumes "initialized fs" and "k < MAX_LOG_FILES"
    and "files fs (data_log_filename k) = None"
    and "\<forall>j<k. files fs (data_log_filename j) \<noteq> None"
  shows "newDataLog io fs =
           create_data_log io
             (fs\<lparr> logFile := None, numberOfDataLogEntries := 0, localErrorCode := FS_ERROR_NONE,
                  cardErrorCode := SD_CARD_ERROR_NONE, sharedFilename := data_log_filename k \<rparr>)"
proof -
  let ?fs = "fs\<lparr> logFile := None, numberOfDataLogEntries := 0,
                  localErrorCode := FS_ERROR_NONE, cardErrorCode := SD_CARD_ERROR_NONE \<rparr>"
  have "newDataLog_loop 0 io ?fs = create_data_log io (?fs\<lparr>sharedFilename := data_log_filename k\<rparr>)"
    using assms by (intro newDataLog_loop_first_free) simp_all
  with assms(1) show ?thesis by (simp add: newDataLog_def)
qed

lemma newDataLog_True:
  assumes "newDataLog io fs = (True, fs')"
  shows "\<exists>name. logFile fs' = Some name \<and> files fs' name = Some data_log_header \<and>
                numberOfDataLogEntries fs' = 0"
proof -
  from assms have ini: "initialized fs" by (auto simp: newDataLog_def split: if_splits)
  let ?fs = "fs\<lparr> logFile := None, numberOfDataLogEntries := 0,
                  localErrorCode := FS_ERROR_NONE, cardErrorCode := SD_CARD_ERROR_NONE \<rparr>"
  show ?thesis
  proof (cases "\<exists>k<MAX_LOG_FILES. files fs (data_log_filename k) = None")
    case True
    define k where "k = (LEAST k. k < MAX_LOG_FILES \<and> files fs (data_log_filename k) = None)"
    from True have kp: "k < MAX_LOG_FILES \<and> files fs (data_log_filename k) = None"
      unfolding k_def by (rule LeastI_ex)
    have kl: "\<forall>j<k. files fs (data_log_filename j) \<noteq> None"
    proof (intro allI impI)
      fix j assume "j < k"
      then have "\<not> (j < MAX_LOG_FILES \<and> files fs (data_log_filename j) = None)"
        unfolding k_def by (rule not_less_Least)
      with \<open>j < k\<close> kp show "files fs (data_log_filename j) \<noteq> None" by simp
    qed
    let ?c = "?fs\<lparr>sharedFilename := data_log_filename k\<rparr>"
    have eq: "newDataLog io fs = create_data_log io ?c"
      using newDataLog_first_free [OF ini _ _ kl] kp by simp
    have pre: "files ?c (sharedFilename ?c) = None" "logFile ?c = None"
      using kp by simp_all
    note r = create_data_log_result [OF pre, of io]
    from assms eq have ok: "fst (create_data_log io ?c)" by simp
    from r(2) [OF ok] have "snd (create_data_log io ?c) =
        ?c\<lparr> files := (files ?c)(sharedFilename ?c \<mapsto> data_log_header),
                      logFile := Some (sharedFilename ?c),
                      sharedBuffer := data_log_header,
                      writeCalls := writeCalls ?c + 1 \<rparr>" .
    with assms eq have "fs' = ?c\<lparr> files := (files ?c)(sharedFilename ?c \<mapsto> data_log_header),
                      logFile := Some (sharedFilename ?c),
                      sharedBuffer := data_log_header,
                      writeCalls := writeCalls ?c + 1 \<rparr>"
      by (metis snd_conv)
    then show ?thesis by simp
  next
    case False
    then have "\<forall>j. 0 \<le> j \<and> j < MAX_LOG_FILES \<longrightarrow> files ?fs (data_log_filename j) \<noteq> None"
      by simp
    from newDataLog_loop_all_exist [OF this, of io] ini assms show ?thesis
      by (simp add: newDataLog_def)
  qed
qed

lemma zip_columns:
  "zip DATA_LOG_COLUMNS (data_log_fields pf e) =
     [(''Timestamp'', DQUOTE # dt e @ [DQUOTE]),
      (''Milliseconds'', fmt_d (sint (ms e))),
      (''Pressure'', fmt_f pf (pressure e)),
      (''Depth'', fmt_f pf (depth e)),
      (''Water_Temperature'', fmt_f pf (waterTemperature e)),
      (''Device_Temperature'', fmt_f pf (deviceTemperature e)),
      (''Acceleration_X'', fmt_f pf (fst (entry_accel e))),
      (''Acceleration_Y'', fmt_f pf (fst (snd (entry_accel e)))),
      (''Acceleration_Z'', fmt_f pf (snd (snd (entry_accel e)))),
      (''Magnetic_X'', fmt_f pf (fst (entry_mag e))),
      (''Magnetic_Y'', fmt_f pf (fst (snd (entry_mag e)))),
      (''Magnetic_Z'', fmt_f pf (snd (snd (entry_mag e)))),
      (''Gyroscope_X'', fmt_f pf (fst (entry_gyro e))),
      (''Gyroscope_Y'', fmt_f pf (fst (snd (entry_gyro e)))),
      (''Gyroscope_Z'', fmt_f pf (snd (snd (entry_gyro e)))),
      (''Controller_Volts'', fmt_5_3f pf (controllerVoltage e)),
      (''Controller_Percent'', fmt_3_1f pf (controllerPercent e)),
      (''Main_Volts'', fmt_5_3f pf (mainVoltage e)),
      (''Main_Percent'', fmt_3_1f pf (mainPercent e))]"
  by (simp add: DATA_LOG_COLUMNS_def data_log_fields_def quoted_def)

text \<open>The sample states, evaluated.\<close>

lemma data_log_row_sample_length: "length (data_log_row pf_sample entry_zero) = 162"
  by (simp add: data_log_row_def csv_line_def data_log_fields_def pf_sample_def entry_zero_def
        quoted_def CRLF_def fmt_d_def dec_nat_small)

lemma data_log_filename_0: "data_log_filename 0 = ''DATA_00.CSV''"
  by (simp add: data_log_filename_def fmt_02d_def dec_nat_small digit_char_def)

lemma writeDataLog_sample:
  "writeDataLog pf_sample entry_zero io_ok open_log =
     (True, open_log\<lparr> sharedBuffer := data_log_row pf_sample entry_zero,
                      files := (\<lambda>name. None)(''DATA_00.CSV'' \<mapsto>
                                 data_log_header @ data_log_row pf_sample entry_zero),
                      writeCalls := 1, numberOfDataLogEntries := 1 \<rparr>)"
  by (simp add: writeDataLog_def isDataLogOpen_def open_log_def empty_card_def io_ok_def
        logFile_write_def write_returns_def stored_bytes_def file_bytes_def
        data_log_row_sample_length)

lemma newDataLog_sample:
  "newDataLog io_ok empty_card =
     (True, empty_card\<lparr> sharedFilename := ''DATA_00.CSV'',
                        files := (\<lambda>name. None)(''DATA_00.CSV'' \<mapsto> data_log_header),
                        logFile := Some ''DATA_00.CSV'',
                        sharedBuffer := data_log_header, writeCalls := 1 \<rparr>)"
proof -
  have "newDataLog io_ok empty_card =
           create_data_log io_ok
             (empty_card\<lparr> logFile := None, numberOfDataLogEntries := 0, localErrorCode := FS_ERROR_NONE,
                  cardErrorCode := SD_CARD_ERROR_NONE, sharedFilename := data_log_filename 0 \<rparr>)"
    by (rule newDataLog_first_free) (simp_all add: empty_card_def MAX_LOG_FILES_def)
  then show ?thesis
    by (simp add: create_data_log_def empty_card_def io_ok_def isDataLogOpen_def
          sd_create_def sd_exists_def writeDataLogHeader_def logFile_write_def
          write_returns_def stored_bytes_def file_bytes_def data_log_header_length
          data_log_filename_0 SD_CARD_ERROR_NONE_def)
qed

lemma write_entries_sample:
  "write_entries pf_sample [(entry_zero, io_ok)]
     (empty_card\<lparr> sharedFilename := ''DATA_00.CSV'',
                   files := (\<lambda>name. None)(''DATA_00.CSV'' \<mapsto> data_log_header),
                   logFile := Some ''DATA_00.CSV'',
                   sharedBuffer := data_log_header, writeCalls := 1 \<rparr>)
   = (True, empty_card\<lparr> sharedFilename := ''DATA_00.CSV'',
                   files := (\<lambda>name. None)(''DATA_00.CSV'' \<mapsto>
                               data_log_header @ data_log_row pf_sample entry_zero),
                   logFile := Some ''DATA_00.CSV'',
                   sharedBuffer := data_log_row pf_sample entry_zero, writeCalls := 2,
                   numberOfDataLogEntries := 1 \<rparr>)"
  by (simp add: writeDataLog_def isDataLogOpen_def empty_card_def io_ok_def
        logFile_write_def write_returns_def stored_bytes_def file_bytes_def
        data_log_row_sample_length)

lemma writeDataLog_card_full:
  "writeDataLog pf_sample entry_zero io_card_full open_log =
     (False, open_log\<lparr> sharedBuffer := data_log_row pf_sample entry_zero,
                       files := (\<lambda>name. None)(''DATA_00.CSV'' \<mapsto>
                                  data_log_header @ take 10 (data_log_row pf_sample entry_zero)),
                       writeCalls := 1, localErrorCode := FS_ERROR_CARD_FULL,
                       logFile := None \<rparr>)"
  by (simp add: writeDataLog_def isDataLogOpen_def open_log_def empty_card_def io_card_full_def
        logFile_write_def write_returns_def stored_bytes_def file_bytes_def write_failure_def
        data_log_row_sample_length)

lemma writeDataLogHeader_card_full:
  "writeDataLogHeader io_card_full open_log =
     (False, open_log\<lparr> sharedBuffer := data_log_header,
                       files := (\<lambda>name. None)(''DATA_00.CSV'' \<mapsto>
                                  data_log_header @ take 10 data_log_header),
                       writeCalls := 1, localErrorCode := FS_ERROR_CARD_FULL,
                       logFile := None \<rparr>)"
  by (simp add: writeDataLogHeader_def isDataLogOpen_def open_log_def empty_card_def io_card_full_def
        logFile_write_def write_returns_def stored_bytes_def file_bytes_def write_failure_def
        data_log_header_length)

text \<open>
  The invariant holds when the class is initialised (no log open, counter zero) and every
  operation on the log keeps it.
\<close>

lemma log_invariant_preserved:
  "log_invariant fs \<Longrightarrow> log_invariant (snd (writeDataLog pf e io fs))"
  "log_invariant fs \<Longrightarrow> log_invariant (snd (writeDataLogHeader io fs))"
  "log_invariant (closeDataLog fs)"
  by (auto simp: log_invariant_def writeDataLog_def writeDataLogHeader_def closeDataLog_def
        isDataLogOpen_def logFile_write_def write_failure_def Let_def)

lemma create_data_log_counter:
  "numberOfDataLogEntries fs = 0 \<Longrightarrow> numberOfDataLogEntries (snd (create_data_log io fs)) = 0"
  by (auto simp: create_data_log_def Let_def isDataLogOpen_def sd_remove_def
        writeDataLogHeader_def logFile_write_def write_failure_def sd_create_def
        split: if_splits prod.splits)

lemma newDataLog_loop_counter:
  "numberOfDataLogEntries fs = 0 \<Longrightarrow> numberOfDataLogEntries (snd (newDataLog_loop i io fs)) = 0"
proof (induction i io fs rule: newDataLog_loop.induct)
  case (1 i io fs)
  then show ?case
    by (subst newDataLog_loop.simps) (auto simp: Let_def create_data_log_counter)
qed

lemma log_invariant_newDataLog:
  "log_invariant fs \<Longrightarrow> log_invariant (snd (newDataLog io fs))"
  by (auto simp: log_invariant_def newDataLog_def newDataLog_loop_counter)

lemma data_log_filename_1_2:
  "data_log_filename (Suc 0) = ''DATA_01.CSV''" "data_log_filename 2 = ''DATA_02.CSV''"
  by (simp_all add: data_log_filename_def fmt_02d_def dec_nat_small digit_char_def)

subsection \<open>Appending to the data log\<close>

text \<open>The text of a row and of the header, character by character.\<close>

lemma data_log_row_text:
  "data_log_row pf e =
     [CHR 0x22] @ dt e @ [CHR 0x22] @ '','' @
     fmt_d (sint (ms e)) @ '','' @
     fmt_f pf (pressure e) @ '','' @
     fmt_f pf (depth e) @ '','' @
     fmt_f pf (waterTemperature e) @ '','' @
     fmt_f pf (deviceTemperature e) @ '','' @
     fmt_f pf (fst (entry_accel e)) @ '','' @
     fmt_f pf (fst (snd (entry_accel e))) @ '','' @
     fmt_f pf (snd (snd (entry_accel e))) @ '','' @
     fmt_f pf (fst (entry_mag e)) @ '','' @
     fmt_f pf (fst (snd (entry_mag e))) @ '','' @
     fmt_f pf (snd (snd (entry_mag e))) @ '','' @
     fmt_f pf (fst (entry_gyro e)) @ '','' @
     fmt_f pf (fst (snd (entry_gyro e))) @ '','' @
     fmt_f pf (snd (snd (entry_gyro e))) @ '','' @
     fmt_5_3f pf (controllerVoltage e) @ '','' @
     fmt_3_1f pf (controllerPercent e) @ '','' @
     fmt_5_3f pf (mainVoltage e) @ '','' @
     fmt_3_1f pf (mainPercent e) @ [CHR 0x0D, CHR 0x0A]"
  by (simp add: data_log_row_def csv_line_def data_log_fields_def quoted_def DQUOTE_def
        CRLF_def)

lemma data_log_header_text:
  "data_log_header =
     [CHR 0x22] @ ''Timestamp'' @ [CHR 0x22] @ '','' @
     [CHR 0x22] @ ''Milliseconds'' @ [CHR 0x22] @ '','' @
     [CHR 0x22] @ ''Pressure'' @ [CHR 0x22] @ '','' @
     [CHR 0x22] @ ''Depth'' @ [CHR 0x22] @ '','' @
     [CHR 0x22] @ ''Water_Temperature'' @ [CHR 0x22] @ '','' @
     [CHR 0x22] @ ''Device_Temperature'' @ [CHR 0x22] @ '','' @
     [CHR 0x22] @ ''Acceleration_X'' @ [CHR 0x22] @ '','' @
     [CHR 0x22] @ ''Acceleration_Y'' @ [CHR 0x22] @ '','' @
     [CHR 0x22] @ ''Acceleration_Z'' @ [CHR 0x22] @ '','' @
     [CHR 0x22] @ ''Magnetic_X'' @ [CHR 0x22] @ '','' @
     [CHR 0x22] @ ''Magnetic_Y'' @ [CHR 0x22] @ '','' @
     [CHR 0x22] @ ''Magnetic_Z'' @ [CHR 0x22] @ '','' @
     [CHR 0x22] @ ''Gyroscope_X'' @ [CHR 0x22] @ '','' @
     [CHR 0x22] @ ''Gyroscope_Y'' @ [CHR 0x22] @ '','' @
     [CHR 0x22] @ ''Gyroscope_Z'' @ [CHR 0x22] @ '','' @
     [CHR 0x22] @ ''Controller_Volts'' @ [CHR 0x22] @ '','' @
     [CHR 0x22] @ ''Controller_Percent'' @ [CHR 0x22] @ '','' @
     [CHR 0x22] @ ''Main_Volts'' @ [CHR 0x22] @ '','' @
     [CHR 0x22] @ ''Main_Percent'' @ [CHR 0x22] @ [CHR 0x0D, CHR 0x0A]"
  by (simp add: data_log_header_def csv_line_def DATA_LOG_COLUMNS_def quoted_def DQUOTE_def
        CRLF_def)

text \<open>
  Claim C3. A call of \<^verbatim>\<open>writeDataLog\<close> that returns true raises the entry counter by one
  (in 32-bit arithmetic) and appends one row to the open log and nothing else. The row is
  the time stamp between double quotes, then the milliseconds and the seventeen readings
  in the order of the schema (pressure, depth, water and device temperature, the
  acceleration, magnetic and gyroscope vectors, and the voltage and charge of the
  controller and main batteries), separated by commas and ended by \<^verbatim>\<open>\r\n\<close>. The header is
  written once, by \<^verbatim>\<open>newDataLog\<close>: after a successful \<^verbatim>\<open>newDataLog\<close> and any number of
  successful appends the file holds the header row, which is the nineteen column names
  of the schema, each between double quotes, separated by commas and ended by \<^verbatim>\<open>\r\n\<close>,
  followed by the rows in the order of the calls. The rows are assumed to fit the shared
  buffer, as \<^verbatim>\<open>sprintf\<close> requires.
\<close>

theorem successful_append_one_row:
  "(writeDataLog pf e io fs = (True, fs') \<and> length (data_log_row pf e) < BUFFER_SIZE \<longrightarrow>
      numberOfDataLogEntries fs' = numberOfDataLogEntries fs + 1 \<and>
      logFile fs \<noteq> None \<and> logFile fs' = logFile fs \<and>
      files fs' = (files fs)(the (logFile fs) \<mapsto>
        file_bytes fs (the (logFile fs)) @
         (
          [CHR 0x22] @ dt e @ [CHR 0x22] @ '','' @
          fmt_d (sint (ms e)) @ '','' @
          fmt_f pf (pressure e) @ '','' @
          fmt_f pf (depth e) @ '','' @
          fmt_f pf (waterTemperature e) @ '','' @
          fmt_f pf (deviceTemperature e) @ '','' @
          fmt_f pf (fst (entry_accel e)) @ '','' @
          fmt_f pf (fst (snd (entry_accel e))) @ '','' @
          fmt_f pf (snd (snd (entry_accel e))) @ '','' @
          fmt_f pf (fst (entry_mag e)) @ '','' @
          fmt_f pf (fst (snd (entry_mag e))) @ '','' @
          fmt_f pf (snd (snd (entry_mag e))) @ '','' @
          fmt_f pf (fst (entry_gyro e)) @ '','' @
          fmt_f pf (fst (snd (entry_gyro e))) @ '','' @
          fmt_f pf (snd (snd (entry_gyro e))) @ '','' @
          fmt_5_3f pf (controllerVoltage e) @ '','' @
          fmt_3_1f pf (controllerPercent e) @ '','' @
          fmt_5_3f pf (mainVoltage e) @ '','' @
          fmt_3_1f pf (mainPercent e) @ [CHR 0x0D, CHR 0x0A]))) \<and>
   (newDataLog io0 fs0 = (True, fs1) \<and> write_entries pf es fs1 = (True, fs2) \<and>
    (\<forall>x \<in> set es. length (data_log_row pf (fst x)) < BUFFER_SIZE) \<longrightarrow>
      logFile fs2 = logFile fs1 \<and> logFile fs2 \<noteq> None \<and>
      numberOfDataLogEntries fs2 = of_nat (length es) \<and>
      files fs2 (the (logFile fs2)) = Some (
       (
        [CHR 0x22] @ ''Timestamp'' @ [CHR 0x22] @ '','' @
        [CHR 0x22] @ ''Milliseconds'' @ [CHR 0x22] @ '','' @
        [CHR 0x22] @ ''Pressure'' @ [CHR 0x22] @ '','' @
        [CHR 0x22] @ ''Depth'' @ [CHR 0x22] @ '','' @
        [CHR 0x22] @ ''Water_Temperature'' @ [CHR 0x22] @ '','' @
        [CHR 0x22] @ ''Device_Temperature'' @ [CHR 0x22] @ '','' @
        [CHR 0x22] @ ''Acceleration_X'' @ [CHR 0x22] @ '','' @
        [CHR 0x22] @ ''Acceleration_Y'' @ [CHR 0x22] @ '','' @
        [CHR 0x22] @ ''Acceleration_Z'' @ [CHR 0x22] @ '','' @
        [CHR 0x22] @ ''Magnetic_X'' @ [CHR 0x22] @ '','' @
        [CHR 0x22] @ ''Magnetic_Y'' @ [CHR 0x22] @ '','' @
        [CHR 0x22] @ ''Magnetic_Z'' @ [CHR 0x22] @ '','' @
        [CHR 0x22] @ ''Gyroscope_X'' @ [CHR 0x22] @ '','' @
        [CHR 0x22] @ ''Gyroscope_Y'' @ [CHR 0x22] @ '','' @
        [CHR 0x22] @ ''Gyroscope_Z'' @ [CHR 0x22] @ '','' @
        [CHR 0x22] @ ''Controller_Volts'' @ [CHR 0x22] @ '','' @
        [CHR 0x22] @ ''Controller_Percent'' @ [CHR 0x22] @ '','' @
        [CHR 0x22] @ ''Main_Volts'' @ [CHR 0x22] @ '','' @
        [CHR 0x22] @ ''Main_Percent'' @ [CHR 0x22] @ [CHR 0x0D, CHR 0x0A]) @
        concat (map (\<lambda>x.
                [CHR 0x22] @ dt (fst x) @ [CHR 0x22] @ '','' @
                fmt_d (sint (ms (fst x))) @ '','' @
                fmt_f pf (pressure (fst x)) @ '','' @
                fmt_f pf (depth (fst x)) @ '','' @
                fmt_f pf (waterTemperature (fst x)) @ '','' @
                fmt_f pf (deviceTemperature (fst x)) @ '','' @
                fmt_f pf (fst (entry_accel (fst x))) @ '','' @
                fmt_f pf (fst (snd (entry_accel (fst x)))) @ '','' @
                fmt_f pf (snd (snd (entry_accel (fst x)))) @ '','' @
                fmt_f pf (fst (entry_mag (fst x))) @ '','' @
                fmt_f pf (fst (snd (entry_mag (fst x)))) @ '','' @
                fmt_f pf (snd (snd (entry_mag (fst x)))) @ '','' @
                fmt_f pf (fst (entry_gyro (fst x))) @ '','' @
                fmt_f pf (fst (snd (entry_gyro (fst x)))) @ '','' @
                fmt_f pf (snd (snd (entry_gyro (fst x)))) @ '','' @
                fmt_5_3f pf (controllerVoltage (fst x)) @ '','' @
                fmt_3_1f pf (controllerPercent (fst x)) @ '','' @
                fmt_5_3f pf (mainVoltage (fst x)) @ '','' @
                fmt_3_1f pf (mainPercent (fst x)) @ [CHR 0x0D, CHR 0x0A]) es)))"
proof (unfold data_log_row_text [symmetric] data_log_header_text [symmetric],
    intro conjI impI)
  assume a: "writeDataLog pf e io fs = (True, fs') \<and> length (data_log_row pf e) < BUFFER_SIZE"
  note t = writeDataLog_True [OF conjunct1 [OF a] conjunct2 [OF a]]
  show "numberOfDataLogEntries fs' = numberOfDataLogEntries fs + 1" using t(1) by simp
  show "logFile fs \<noteq> None" by (rule t(2))
  show "logFile fs' = logFile fs" using t(1) by simp
  show "files fs' = (files fs)(the (logFile fs) \<mapsto>
          file_bytes fs (the (logFile fs)) @ data_log_row pf e)" using t(1) by simp
next
  assume b: "newDataLog io0 fs0 = (True, fs1) \<and> write_entries pf es fs1 = (True, fs2) \<and>
    (\<forall>x \<in> set es. length (data_log_row pf (fst x)) < BUFFER_SIZE)"
  then obtain name where n: "logFile fs1 = Some name" "files fs1 name = Some data_log_header"
      "numberOfDataLogEntries fs1 = 0"
    using newDataLog_True by blast
  from b have w: "write_entries pf es fs1 = (True, fs2)"
    and l: "\<forall>x \<in> set es. length (data_log_row pf (fst x)) < BUFFER_SIZE" by simp_all
  note c = write_entries_content [OF w l n(1)]
  have some: "files fs2 name \<noteq> None"
  proof (cases es)
    case Nil
    with w n(2) show ?thesis by simp
  next
    case (Cons a list)
    with c show ?thesis by simp
  qed
  show "logFile fs2 = logFile fs1" using c n(1) by simp
  show "logFile fs2 \<noteq> None" using c by simp
  show "numberOfDataLogEntries fs2 = of_nat (length es)" using c n(3) by simp
  show "files fs2 (the (logFile fs2))
        = Some (data_log_header @ concat (map (\<lambda>x. data_log_row pf (fst x)) es))"
    using c some n(2) by (auto simp: file_bytes_def)
qed

text \<open>
  One append to the sample log; and a new log on the empty card followed by one append,
  after which \<^verbatim>\<open>DATA_00.CSV\<close> holds the header and one row of zeroes.
\<close>

theorem successful_append_one_row_witness:
  "numberOfDataLogEntries (snd (writeDataLog pf_sample entry_zero io_ok open_log)) = 1 \<and>
   files (snd (write_entries pf_sample [(entry_zero, io_ok)] (snd (newDataLog io_ok empty_card))))
      ''DATA_00.CSV''
     = Some (
        [CHR 0x22] @ ''Timestamp'' @ [CHR 0x22] @ '','' @
        [CHR 0x22] @ ''Milliseconds'' @ [CHR 0x22] @ '','' @
        [CHR 0x22] @ ''Pressure'' @ [CHR 0x22] @ '','' @
        [CHR 0x22] @ ''Depth'' @ [CHR 0x22] @ '','' @
        [CHR 0x22] @ ''Water_Temperature'' @ [CHR 0x22] @ '','' @
        [CHR 0x22] @ ''Device_Temperature'' @ [CHR 0x22] @ '','' @
        [CHR 0x22] @ ''Acceleration_X'' @ [CHR 0x22] @ '','' @
        [CHR 0x22] @ ''Acceleration_Y'' @ [CHR 0x22] @ '','' @
        [CHR 0x22] @ ''Acceleration_Z'' @ [CHR 0x22] @ '','' @
        [CHR 0x22] @ ''Magnetic_X'' @ [CHR 0x22] @ '','' @
        [CHR 0x22] @ ''Magnetic_Y'' @ [CHR 0x22] @ '','' @
        [CHR 0x22] @ ''Magnetic_Z'' @ [CHR 0x22] @ '','' @
        [CHR 0x22] @ ''Gyroscope_X'' @ [CHR 0x22] @ '','' @
        [CHR 0x22] @ ''Gyroscope_Y'' @ [CHR 0x22] @ '','' @
        [CHR 0x22] @ ''Gyroscope_Z'' @ [CHR 0x22] @ '','' @
        [CHR 0x22] @ ''Controller_Volts'' @ [CHR 0x22] @ '','' @
        [CHR 0x22] @ ''Controller_Percent'' @ [CHR 0x22] @ '','' @
        [CHR 0x22] @ ''Main_Volts'' @ [CHR 0x22] @ '','' @
        [CHR 0x22] @ ''Main_Percent'' @ [CHR 0x22] @ [CHR 0x0D, CHR 0x0A] @
          [CHR 0x22] @ ''01/01/2000 00:00:00'' @ [CHR 0x22] @
           '',0,0.000000,0.000000,0.000000,0.000000'' @
           '',0.000000,0.000000,0.000000'' @
           '',0.000000,0.000000,0.000000'' @
           '',0.000000,0.000000,0.000000'' @
           '',0.000,0.0,0.000,0.0'' @ [CHR 0x0D, CHR 0x0A])"
proof -
  let ?fs2 = "empty_card\<lparr> sharedFilename := ''DATA_00.CSV'',
                   files := (\<lambda>name. None)(''DATA_00.CSV'' \<mapsto>
                               data_log_header @ data_log_row pf_sample entry_zero),
                   logFile := Some ''DATA_00.CSV'',
                   sharedBuffer := data_log_row pf_sample entry_zero, writeCalls := 2,
                   numberOfDataLogEntries := 1 \<rparr>"
  have len: "length (data_log_row pf_sample entry_zero) < BUFFER_SIZE"
    by (simp add: data_log_row_sample_length BUFFER_SIZE_def)
  have d: "\<forall>x \<in> set [(entry_zero, io_ok)]. length (data_log_row pf_sample (fst x)) < BUFFER_SIZE"
    using len by simp
  have z: "numberOfDataLogEntries open_log = 0"
    by (simp add: open_log_def empty_card_def)
  note t = successful_append_one_row [THEN conjunct1, rule_format,
      OF conjI [OF writeDataLog_sample len]]
  note u = successful_append_one_row [THEN conjunct2, rule_format,
      OF conjI [OF newDataLog_sample conjI [OF write_entries_sample d]]]
  from t z have A: "numberOfDataLogEntries (snd (writeDataLog pf_sample entry_zero io_ok open_log)) = 1"
    by (simp add: writeDataLog_sample)
  have B1: "snd (write_entries pf_sample [(entry_zero, io_ok)] (snd (newDataLog io_ok empty_card))) = ?fs2"
    by (simp only: newDataLog_sample write_entries_sample snd_conv)
  have B2: "the (logFile ?fs2) = ''DATA_00.CSV''" by simp
  have zero: "fmt_d (sint (ms entry_zero)) = ''0''"
    by (simp add: entry_zero_def fmt_d_def dec_nat_small digit_char_def)
  from u have "files ?fs2 (the (logFile ?fs2)) = Some (
        [CHR 0x22] @ ''Timestamp'' @ [CHR 0x22] @ '','' @
        [CHR 0x22] @ ''Milliseconds'' @ [CHR 0x22] @ '','' @
        [CHR 0x22] @ ''Pressure'' @ [CHR 0x22] @ '','' @
        [CHR 0x22] @ ''Depth'' @ [CHR 0x22] @ '','' @
        [CHR 0x22] @ ''Water_Temperature'' @ [CHR 0x22] @ '','' @
        [CHR 0x22] @ ''Device_Temperature'' @ [CHR 0x22] @ '','' @
        [CHR 0x22] @ ''Acceleration_X'' @ [CHR 0x22] @ '','' @
        [CHR 0x22] @ ''Acceleration_Y'' @ [CHR 0x22] @ '','' @
        [CHR 0x22] @ ''Acceleration_Z'' @ [CHR 0x22] @ '','' @
        [CHR 0x22] @ ''Magnetic_X'' @ [CHR 0x22] @ '','' @
        [CHR 0x22] @ ''Magnetic_Y'' @ [CHR 0x22] @ '','' @
        [CHR 0x22] @ ''Magnetic_Z'' @ [CHR 0x22] @ '','' @
        [CHR 0x22] @ ''Gyroscope_X'' @ [CHR 0x22] @ '','' @
        [CHR 0x22] @ ''Gyroscope_Y'' @ [CHR 0x22] @ '','' @
        [CHR 0x22] @ ''Gyroscope_Z'' @ [CHR 0x22] @ '','' @
        [CHR 0x22] @ ''Controller_Volts'' @ [CHR 0x22] @ '','' @
        [CHR 0x22] @ ''Controller_Percent'' @ [CHR 0x22] @ '','' @
        [CHR 0x22] @ ''Main_Volts'' @ [CHR 0x22] @ '','' @
        [CHR 0x22] @ ''Main_Percent'' @ [CHR 0x22] @ [CHR 0x0D, CHR 0x0A] @
          [CHR 0x22] @ ''01/01/2000 00:00:00'' @ [CHR 0x22] @
           '',0,0.000000,0.000000,0.000000,0.000000'' @
           '',0.000000,0.000000,0.000000'' @
           '',0.000000,0.000000,0.000000'' @
           '',0.000000,0.000000,0.000000'' @
           '',0.000,0.0,0.000,0.0'' @ [CHR 0x0D, CHR 0x0A])"
    by (simp add: zero) (simp add: pf_sample_def entry_zero_def)
  then have B: "files (snd (write_entries pf_sample [(entry_zero, io_ok)]
        (snd (newDataLog io_ok empty_card)))) ''DATA_00.CSV'' = Some (
        [CHR 0x22] @ ''Timestamp'' @ [CHR 0x22] @ '','' @
        [CHR 0x22] @ ''Milliseconds'' @ [CHR 0x22] @ '','' @
        [CHR 0x22] @ ''Pressure'' @ [CHR 0x22] @ '','' @
        [CHR 0x22] @ ''Depth'' @ [CHR 0x22] @ '','' @
        [CHR 0x22] @ ''Water_Temperature'' @ [CHR 0x22] @ '','' @
        [CHR 0x22] @ ''Device_Temperature'' @ [CHR 0x22] @ '','' @
        [CHR 0x22] @ ''Acceleration_X'' @ [CHR 0x22] @ '','' @
        [CHR 0x22] @ ''Acceleration_Y'' @ [CHR 0x22] @ '','' @
        [CHR 0x22] @ ''Acceleration_Z'' @ [CHR 0x22] @ '','' @
        [CHR 0x22] @ ''Magnetic_X'' @ [CHR 0x22] @ '','' @
        [CHR 0x22] @ ''Magnetic_Y'' @ [CHR 0x22] @ '','' @
        [CHR 0x22] @ ''Magnetic_Z'' @ [CHR 0x22] @ '','' @
        [CHR 0x22] @ ''Gyroscope_X'' @ [CHR 0x22] @ '','' @
        [CHR 0x22] @ ''Gyroscope_Y'' @ [CHR 0x22] @ '','' @
        [CHR 0x22] @ ''Gyroscope_Z'' @ [CHR 0x22] @ '','' @
        [CHR 0x22] @ ''Controller_Volts'' @ [CHR 0x22] @ '','' @
        [CHR 0x22] @ ''Controller_Percent'' @ [CHR 0x22] @ '','' @
        [CHR 0x22] @ ''Main_Volts'' @ [CHR 0x22] @ '','' @
        [CHR 0x22] @ ''Main_Percent'' @ [CHR 0x22] @ [CHR 0x0D, CHR 0x0A] @
          [CHR 0x22] @ ''01/01/2000 00:00:00'' @ [CHR 0x22] @
           '',0,0.000000,0.000000,0.000000,0.000000'' @
           '',0.000000,0.000000,0.000000'' @
           '',0.000000,0.000000,0.000000'' @
           '',0.000000,0.000000,0.000000'' @
           '',0.000,0.0,0.000,0.0'' @ [CHR 0x0D, CHR 0x0A])"
    unfolding B1 B2 .
  from A B show ?thesis by (rule conjI)
qed

subsection \<open>A failed append\<close>

text \<open>
  Claim C4. When the write of a row returns anything but the row's length, or the sync
  fails, \<^verbatim>\<open>writeDataLog\<close> returns false after that one call of \<^verbatim>\<open>write\<close>: the row is not
  written a second time. The error is \<^verbatim>\<open>FS_ERROR_NOCARD\<close> when the card reports no
  sectors and \<^verbatim>\<open>FS_ERROR_CARD_FULL\<close> otherwise, and the library's error code is kept.
\<close>

theorem writeDataLog_failure_classified:
  assumes "isDataLogOpen fs"
    and "write_returns (write_res io) (data_log_row pf e) \<noteq> of_nat (length (data_log_row pf e))
         \<or> \<not> sync_ok io"
  shows "fst (writeDataLog pf e io fs) = False \<and>
         writeCalls (snd (writeDataLog pf e io fs)) = writeCalls fs + 1 \<and>
         localErrorCode (snd (writeDataLog pf e io fs))
           = (if sectorCount fs = 0 then FS_ERROR_NOCARD else FS_ERROR_CARD_FULL) \<and>
         cardErrorCode (snd (writeDataLog pf e io fs)) = sdErrorCode fs"
  using assms
  by (auto simp: writeDataLog_def logFile_write_def write_failure_def Let_def)

text \<open>The card takes ten bytes of the row; once with sectors to report, once with none.\<close>

theorem writeDataLog_failure_classified_witness:
  "fst (writeDataLog pf_sample entry_zero io_card_full open_log) = False \<and>
   writeCalls (snd (writeDataLog pf_sample entry_zero io_card_full open_log)) = 1 \<and>
   localErrorCode (snd (writeDataLog pf_sample entry_zero io_card_full open_log))
     = FS_ERROR_CARD_FULL \<and>
   localErrorCode (snd (writeDataLog pf_sample entry_zero io_card_full
                          (open_log\<lparr>sectorCount := 0\<rparr>)))
     = FS_ERROR_NOCARD"
proof -
  have o: "isDataLogOpen open_log" "isDataLogOpen (open_log\<lparr>sectorCount := 0\<rparr>)"
    by (simp_all add: isDataLogOpen_def open_log_def)
  have w: "write_returns (write_res io_card_full) (data_log_row pf_sample entry_zero)
             \<noteq> of_nat (length (data_log_row pf_sample entry_zero))
           \<or> \<not> sync_ok io_card_full"
    by (simp add: write_returns_def io_card_full_def data_log_row_sample_length)
  have s: "sectorCount open_log \<noteq> 0" "writeCalls open_log = 0"
    by (simp_all add: open_log_def empty_card_def)
  show ?thesis
    using writeDataLog_failure_classified [OF o(1) w]
          writeDataLog_failure_classified [OF o(2) w] s
    by simp
qed

subsection \<open>After a failure\<close>

text \<open>
  Claim C10. When \<^verbatim>\<open>writeDataLog\<close> or \<^verbatim>\<open>writeDataLogHeader\<close> returns false, the log is
  closed and the entry counter is zero, and from then on every \<^verbatim>\<open>writeDataLog\<close> returns
  false and leaves the files as they are, whatever else is called in between, until a
  \<^verbatim>\<open>newDataLog\<close> returns true.
\<close>

theorem failure_closes_log:
  assumes "log_invariant fs"
  shows "(writeDataLog pf e io fs = (False, fs') \<longrightarrow>
            \<not> isDataLogOpen fs' \<and> numberOfDataLogEntries fs' = 0 \<and> writes_refused calls fs') \<and>
         (writeDataLogHeader io fs = (False, fs'') \<longrightarrow>
            \<not> isDataLogOpen fs'' \<and> numberOfDataLogEntries fs'' = 0 \<and> writes_refused calls fs'')"
  using assms
  by (auto simp: log_invariant_def isDataLogOpen_def
        dest!: writeDataLog_False writeDataLogHeader_False intro: writes_refused_closed)

text \<open>
  The card fills up during an append, and during a header write; a later append, also
  after a \<^verbatim>\<open>closeDataLog\<close>, is refused.
\<close>

theorem failure_closes_log_witness:
  "\<not> isDataLogOpen (snd (writeDataLog pf_sample entry_zero io_card_full open_log)) \<and>
   writes_refused [WriteDataLog pf_sample entry_zero io_ok, CloseDataLog,
                   WriteDataLog pf_sample entry_zero io_ok]
     (snd (writeDataLog pf_sample entry_zero io_card_full open_log)) \<and>
   \<not> isDataLogOpen (snd (writeDataLogHeader io_card_full open_log))"
proof -
  have i: "log_invariant open_log" by (simp add: log_invariant_def open_log_def)
  note t = failure_closes_log [OF i, THEN conjunct1, rule_format, OF writeDataLog_card_full]
  note u = failure_closes_log [OF i, THEN conjunct2, rule_format, OF writeDataLogHeader_card_full]
  from t [of "[WriteDataLog pf_sample entry_zero io_ok, CloseDataLog,
                   WriteDataLog pf_sample entry_zero io_ok]"] u
  show ?thesis
    by (simp only: writeDataLog_card_full writeDataLogHeader_card_full snd_conv) blast
qed

subsection \<open>Creating a data log\<close>

text \<open>
  Claim C8 says that \<^verbatim>\<open>newDataLog\<close> fails with \<^verbatim>\<open>FS_ERROR_TOO_MANY_LOG_FILES\<close> whenever
  the files of all 100 indices exist. The function first tests \<^verbatim>\<open>initialized\<close>: after a
  failed \<^verbatim>\<open>FileSystem::init\<close> it returns false without looking at the card and without
  setting that error, so the error of the failed initialisation stays.
\<close>

theorem newDataLog_uninitialized:
  "files unmounted_card = every_name_taken \<and>
   files unmounted_card (data_log_filename 0) \<noteq> None \<and>
   files unmounted_card (data_log_filename 99) \<noteq> None \<and>
   fst (newDataLog io_ok unmounted_card) = False \<and>
   localErrorCode (snd (newDataLog io_ok unmounted_card)) = FS_ERROR_NOCARD \<and>
   localErrorCode (snd (newDataLog io_ok unmounted_card)) \<noteq> FS_ERROR_TOO_MANY_LOG_FILES"
  by (simp add: newDataLog_def unmounted_card_def crowded_card_def empty_card_def
        every_name_taken_def)

text \<open>
  Claim C8, amended. When the file system is initialised, \<^verbatim>\<open>newDataLog\<close> settles on the
  first index in 0..99 whose file name does not exist on the card, and on no other. It
  returns true exactly when the card accepts the open, the whole header and the sync; the
  file of that name then holds the header row and is the open log. Otherwise it returns
  false with no log open. After a failed open the card is as it was. After a failed write
  or sync it asks the card to remove the new file and does not look at the answer: the
  card is as it was when the removal is carried out, and otherwise keeps, under the new
  name, the bytes of the header that the write stored. If the files of all 100 indices
  exist, it creates nothing and returns false with \<^verbatim>\<open>FS_ERROR_TOO_MANY_LOG_FILES\<close>. When
  the file system is not initialised, it returns false at once and changes nothing.
\<close>

theorem newDataLog_first_free_index:
  "(initialized fs \<and> k < MAX_LOG_FILES \<and> files fs (data_log_filename k) = None \<and>
    (\<forall>j<k. files fs (data_log_filename j) \<noteq> None) \<longrightarrow>
      sharedFilename (snd (newDataLog io fs)) = data_log_filename k \<and>
      fst (newDataLog io fs)
        = (open_ok io \<and>
           write_returns (write_res io) data_log_header = of_nat (length data_log_header) \<and>
           sync_ok io) \<and>
      (if fst (newDataLog io fs)
       then files (snd (newDataLog io fs)) = (files fs)(data_log_filename k \<mapsto> data_log_header)
          \<and> logFile (snd (newDataLog io fs)) = Some (data_log_filename k)
       else logFile (snd (newDataLog io fs)) = None
          \<and> files (snd (newDataLog io fs))
              = (if remove_ok io \<or> \<not> open_ok io then files fs
                 else (files fs)(data_log_filename k \<mapsto>
                         stored_bytes (write_res io) data_log_header)))) \<and>
   (initialized fs \<and> (\<forall>j<MAX_LOG_FILES. files fs (data_log_filename j) \<noteq> None) \<longrightarrow>
      fst (newDataLog io fs) = False \<and>
      files (snd (newDataLog io fs)) = files fs \<and>
      logFile (snd (newDataLog io fs)) = None \<and>
      localErrorCode (snd (newDataLog io fs)) = FS_ERROR_TOO_MANY_LOG_FILES) \<and>
   (\<not> initialized fs \<longrightarrow> newDataLog io fs = (False, fs))"
proof (intro conjI impI)
  assume a: "initialized fs \<and> k < MAX_LOG_FILES \<and> files fs (data_log_filename k) = None \<and>
    (\<forall>j<k. files fs (data_log_filename j) \<noteq> None)"
  let ?c = "fs\<lparr> logFile := None, numberOfDataLogEntries := 0, localErrorCode := FS_ERROR_NONE,
                  cardErrorCode := SD_CARD_ERROR_NONE, sharedFilename := data_log_filename k \<rparr>"
  have eq: "newDataLog io fs = create_data_log io ?c"
    using a by (intro newDataLog_first_free) simp_all
  have pre: "files ?c (sharedFilename ?c) = None" "logFile ?c = None"
    using a by simp_all
  note r = create_data_log_result [OF pre, of io]
  show "sharedFilename (snd (newDataLog io fs)) = data_log_filename k"
    using r(4) by (simp add: eq)
  show ok: "fst (newDataLog io fs)
        = (open_ok io \<and>
           write_returns (write_res io) data_log_header = of_nat (length data_log_header) \<and>
           sync_ok io)"
    using r(1) by (simp add: eq)
  show "if fst (newDataLog io fs)
       then files (snd (newDataLog io fs)) = (files fs)(data_log_filename k \<mapsto> data_log_header)
          \<and> logFile (snd (newDataLog io fs)) = Some (data_log_filename k)
       else logFile (snd (newDataLog io fs)) = None
          \<and> files (snd (newDataLog io fs))
              = (if remove_ok io \<or> \<not> open_ok io then files fs
                 else (files fs)(data_log_filename k \<mapsto>
                         stored_bytes (write_res io) data_log_header))"
  proof (cases "fst (newDataLog io fs)")
    case True
    with r(2) [OF True [unfolded eq]] show ?thesis by (simp add: eq)
  next
    case False
    then have "create_data_log io ?c = (False, snd (create_data_log io ?c))"
      by (simp add: eq prod_eq_iff)
    from create_data_log_False [OF this pre(2)] False r(3) show ?thesis
      by (simp add: eq)
  qed
next
  assume b: "initialized fs \<and> (\<forall>j<MAX_LOG_FILES. files fs (data_log_filename j) \<noteq> None)"
  let ?fs = "fs\<lparr> logFile := None, numberOfDataLogEntries := 0,
                  localErrorCode := FS_ERROR_NONE, cardErrorCode := SD_CARD_ERROR_NONE \<rparr>"
  from b have "\<forall>j. 0 \<le> j \<and> j < MAX_LOG_FILES \<longrightarrow> files ?fs (data_log_filename j) \<noteq> None"
    by simp
  note r = newDataLog_loop_all_exist [OF this, of io]
  from b have eq: "newDataLog io fs = newDataLog_loop 0 io ?fs" by (simp add: newDataLog_def)
  show "fst (newDataLog io fs) = False" using r by (simp add: eq)
  show "files (snd (newDataLog io fs)) = files fs" using r by (simp add: eq)
  show "logFile (snd (newDataLog io fs)) = None" using r by (simp add: eq)
  show "localErrorCode (snd (newDataLog io fs)) = FS_ERROR_TOO_MANY_LOG_FILES"
    using r by (simp add: eq)
next
  assume "\<not> initialized fs"
  then show "newDataLog io fs = (False, fs)" by (simp add: newDataLog_def)
qed

text \<open>
  A card that holds logs 0 and 1 gets log 2. When that card has room for ten bytes only,
  the call fails: the card is as before if it removes the new file, and otherwise keeps
  the first ten bytes of the header as \<^verbatim>\<open>DATA_02.CSV\<close>. A card with every name taken gets
  no log; a card that was never mounted is not touched.
\<close>

theorem newDataLog_first_free_index_witness:
  "newDataLog io_ok two_logs_card
     = (True, snd (newDataLog io_ok two_logs_card)) \<and>
   logFile (snd (newDataLog io_ok two_logs_card)) = Some ''DATA_02.CSV'' \<and>
   files (snd (newDataLog io_ok two_logs_card)) ''DATA_02.CSV'' = Some data_log_header \<and>
   fst (newDataLog io_card_full two_logs_card) = False \<and>
   files (snd (newDataLog io_card_full two_logs_card)) = files two_logs_card \<and>
   fst (newDataLog io_card_full_no_remove two_logs_card) = False \<and>
   logFile (snd (newDataLog io_card_full_no_remove two_logs_card)) = None \<and>
   files (snd (newDataLog io_card_full_no_remove two_logs_card)) ''DATA_02.CSV''
     = Some (CHR 0x22 # ''Timestamp'') \<and>
   localErrorCode (snd (newDataLog io_ok crowded_card)) = FS_ERROR_TOO_MANY_LOG_FILES \<and>
   newDataLog io_ok unmounted_card = (False, unmounted_card)"
proof -
  have q: "\<forall>j<2. files two_logs_card (data_log_filename j) \<noteq> None"
  proof (intro allI impI)
    fix j :: nat assume "j < 2"
    then have "j = 0 \<or> j = Suc 0" by auto
    then show "files two_logs_card (data_log_filename j) \<noteq> None"
      by (auto simp: two_logs_card_def empty_card_def data_log_filename_0 data_log_filename_1_2)
  qed
  have p1: "initialized two_logs_card \<and> 2 < MAX_LOG_FILES \<and>
      files two_logs_card (data_log_filename 2) = None \<and>
      (\<forall>j<2. files two_logs_card (data_log_filename j) \<noteq> None)"
    using q by (simp add: two_logs_card_def empty_card_def MAX_LOG_FILES_def data_log_filename_1_2)
  have p2: "initialized crowded_card \<and>
      (\<forall>j<MAX_LOG_FILES. files crowded_card (data_log_filename j) \<noteq> None)"
    by (simp add: crowded_card_def empty_card_def every_name_taken_def)
  have p3: "\<not> initialized unmounted_card"
    by (simp add: unmounted_card_def)
  have io: "open_ok io_ok \<and>
      write_returns (write_res io_ok) data_log_header = of_nat (length data_log_header) \<and>
      sync_ok io_ok"
    by (simp add: io_ok_def write_returns_def data_log_header_length)
  note a = newDataLog_first_free_index [THEN conjunct1, rule_format, OF p1, of io_ok]
  note b = newDataLog_first_free_index [THEN conjunct2, THEN conjunct1, rule_format, OF p2, of io_ok]
  note c = newDataLog_first_free_index [THEN conjunct2, THEN conjunct2, rule_format, OF p3, of io_ok]
  note f = newDataLog_first_free_index [THEN conjunct1, rule_format, OF p1, of io_card_full]
  note g = newDataLog_first_free_index [THEN conjunct1, rule_format, OF p1,
      of io_card_full_no_remove]
  from a io have ok: "fst (newDataLog io_ok two_logs_card)" by simp
  with a have A: "files (snd (newDataLog io_ok two_logs_card))
       = (files two_logs_card)(data_log_filename 2 \<mapsto> data_log_header)"
    and B: "logFile (snd (newDataLog io_ok two_logs_card)) = Some (data_log_filename 2)"
    by simp_all
  have short: "write_returns (Wrote 10) data_log_header \<noteq> of_nat (length data_log_header)"
    by (simp add: write_returns_def data_log_header_length)
  have ten: "stored_bytes (Wrote 10) data_log_header = CHR 0x22 # ''Timestamp''"
    by (simp add: stored_bytes_def data_log_header_def csv_line_def DATA_LOG_COLUMNS_def
          quoted_def DQUOTE_def)
  have cf: "open_ok io_card_full" "write_res io_card_full = Wrote 10" "sync_ok io_card_full"
      "remove_ok io_card_full"
    by (simp_all add: io_card_full_def)
  have cn: "open_ok io_card_full_no_remove" "write_res io_card_full_no_remove = Wrote 10"
      "sync_ok io_card_full_no_remove" "\<not> remove_ok io_card_full_no_remove"
    by (simp_all add: io_card_full_no_remove_def)
  from f short have F1: "fst (newDataLog io_card_full two_logs_card) = False"
    by (simp add: cf)
  with f have F2: "files (snd (newDataLog io_card_full two_logs_card)) = files two_logs_card"
    by (simp add: cf)
  from g short have G1: "fst (newDataLog io_card_full_no_remove two_logs_card) = False"
    by (simp add: cn)
  with g have G2: "logFile (snd (newDataLog io_card_full_no_remove two_logs_card)) = None"
    and G3: "files (snd (newDataLog io_card_full_no_remove two_logs_card))
       = (files two_logs_card)(data_log_filename 2 \<mapsto> CHR 0x22 # ''Timestamp'')"
    by (simp_all add: cn ten)
  from ok A B F1 F2 G1 G2 G3 b c show ?thesis
    by (simp add: data_log_filename_1_2 prod_eq_iff)
qed

subsection \<open>The settings file\<close>

lemma readLine_loop_line:
  assumes "CHR 0x0D \<notin> set l" and "CHR 0x0A \<notin> set l"
    and "length buf + length l < BUFFER_SIZE - 1"
  shows "readLine_loop (l @ CHR 0x0D # CHR 0x0A # rest) buf = (buf @ l, rest)"
  using assms
proof (induction l arbitrary: buf)
  case Nil
  then show ?case by simp
next
  case (Cons c l)
  from Cons.prems have "readLine_loop (l @ CHR 0x0D # CHR 0x0A # rest) (buf @ [c]) = ((buf @ [c]) @ l, rest)"
    by (intro Cons.IH) simp_all
  moreover from Cons.prems have "c \<noteq> CHR 0x0D" "c \<noteq> CHR 0x0A" by auto
  moreover from Cons.prems have "length buf < BUFFER_SIZE - 1" by simp
  ultimately show ?case by simp
qed

lemma readLine_line:
  assumes "CHR 0x0D \<notin> set l" and "CHR 0x0A \<notin> set l" and "length l < BUFFER_SIZE - 1"
  shows "readLine (l @ CRLF @ rest) = (l, rest)"
  using readLine_loop_line [of l "[]" rest] assms by (simp add: readLine_def CRLF_def)

lemma loadSettings_loop_line:
  assumes "CHR 0x0D \<notin> set l" and "CHR 0x0A \<notin> set l" and "length l < BUFFER_SIZE - 1"
    and "l \<noteq> []"
  shows "loadSettings_loop (l @ CRLF @ rest) st = loadSettings_loop rest (apply_settings_line l st)"
  using readLine_line [OF assms(1-3), of rest] assms(4)
  by (subst loadSettings_loop.simps) simp

lemma loadSettings_loop_lines:
  "\<forall>l \<in> set ls. line_ok l \<Longrightarrow>
   loadSettings_loop (concat (map (\<lambda>l. l @ CRLF) ls) @ rest) st
     = loadSettings_loop rest (foldl (\<lambda>s l. apply_settings_line l s) st ls)"
proof (induction ls arbitrary: st)
  case Nil
  then show ?case by simp
next
  case (Cons l ls)
  then have "line_ok l" by simp
  then have "loadSettings_loop (l @ CRLF @ concat (map (\<lambda>l. l @ CRLF) ls) @ rest) st
      = loadSettings_loop (concat (map (\<lambda>l. l @ CRLF) ls) @ rest) (apply_settings_line l st)"
    by (intro loadSettings_loop_line) (simp_all add: line_ok_def)
  with Cons show ?case by simp
qed

lemma loadSettings_loop_end: "loadSettings_loop [] st = st"
  by (subst loadSettings_loop.simps) (simp add: readLine_def)

lemma settings_text_sample:
  "settings_text 1000 False 1
     = ''interval 1000'' @ CRLF @ ''burstsize 1'' @ CRLF @ ''lasercontinuous 0'' @ CRLF"
  by (simp add: settings_text_def fmt_d_def dec_nat_small dec_nat_large digit_char_def)

lemma overwritten_sample:
  "overwrite_from_start (settings_text 1000 False 1) hand_written_settings
     = concat (map (\<lambda>l. l @ CRLF)
         [''interval 1000'', ''burstsize 1'', ''lasercontinuous 0'', ''th care'',
          ''interval 500'', ''burstsize 3'', ''lasercontinuous 1'']) @ []"
  by (simp add: settings_text_sample overwrite_from_start_def hand_written_settings_def CRLF_def)

lemma saveSettings_sample:
  "saveSettings 1000 False 1 io_ok hand_written_card
     = (True, hand_written_card\<lparr>
          sharedBuffer := settings_text 1000 False 1,
          files := (\<lambda>name. None)(SETTINGS_FILENAME \<mapsto>
                     overwrite_from_start (settings_text 1000 False 1) hand_written_settings) \<rparr>)"
proof -
  have l: "length (settings_text 1000 False 1) = 47"
    by (simp add: settings_text_sample CRLF_def)
  show ?thesis
    by (simp add: saveSettings_def hand_written_card_def empty_card_def io_ok_def sd_create_def
          sd_exists_def write_returns_def stored_bytes_def file_bytes_def l
          SD_CARD_ERROR_NONE_def Let_def)
qed

lemma apply_lines_sample:
  "apply_settings_line ''interval 1000'' st = st\<lparr>st_interval := 1000\<rparr>"
  "apply_settings_line ''burstsize 1'' st = st\<lparr>st_burstSize := 1\<rparr>"
  "apply_settings_line ''lasercontinuous 0'' st = st\<lparr>st_isLaserContinuous := False\<rparr>"
  "apply_settings_line ''th care'' st = st"
  "apply_settings_line ''interval 500'' st = st\<lparr>st_interval := 500\<rparr>"
  "apply_settings_line ''burstsize 3'' st = st\<lparr>st_burstSize := 3\<rparr>"
  "apply_settings_line ''lasercontinuous 1'' st = st\<lparr>st_isLaserContinuous := True\<rparr>"
  by (simp_all add: apply_settings_line_def parseLine_def clib_eval)

text \<open>What \<^verbatim>\<open>saveSettings\<close> prints, \<^verbatim>\<open>loadSettings\<close> parses back.\<close>

lemma fmt_d_chars:
  assumes "c \<in> set (fmt_d i)"
  shows "\<not> isSpace c" and "c \<noteq> CHR 0x00" and "c \<noteq> CHR 0x0D" and "c \<noteq> CHR 0x0A"
proof -
  from assms have "c = CHR ''-'' \<or> c \<in> set (dec_nat (nat (- i))) \<or> c \<in> set (dec_nat (nat i))"
    by (auto simp: fmt_d_def split: if_splits)
  then have "c = CHR ''-'' \<or> (\<exists>d<10. c = digit_char d)"
    using dec_nat_chars by blast
  then show s: "\<not> isSpace c" and "c \<noteq> CHR 0x00"
  proof -
    assume "c = CHR ''-'' \<or> (\<exists>d<10. c = digit_char d)"
    then have "\<not> isSpace c \<and> c \<noteq> CHR 0x00"
    proof
      assume "c = CHR ''-''"
      then show ?thesis by (simp add: isSpace_def)
    next
      assume "\<exists>d<10. c = digit_char d"
      then obtain d where "d < 10" "c = digit_char d" by blast
      with digit_char_props(3,4) [of d] show ?thesis by simp
    qed
    then show "\<not> isSpace c" and "c \<noteq> CHR 0x00" by simp_all
  qed
  from s show "c \<noteq> CHR 0x0D" and "c \<noteq> CHR 0x0A" by (auto simp: isSpace_def)
qed

lemma fmt_d_nonempty: "fmt_d i \<noteq> []"
  by (simp add: fmt_d_def dec_nat_nonempty)

lemma fmt_d_length:
  assumes "LONG_MIN \<le> i" and "i \<le> LONG_MAX"
  shows "length (fmt_d i) \<le> 11"
proof -
  have "nat (- i) < 10 ^ 10" "nat i < 10 ^ 10"
    using assms by (simp_all add: LONG_MIN_def LONG_MAX_def)
  then have "length (dec_nat (nat (- i))) \<le> 10" "length (dec_nat (nat i)) \<le> 10"
    by (simp_all add: dec_nat_length)
  then show ?thesis by (simp add: fmt_d_def)
qed

lemma parseLine_name_value:
  assumes "\<forall>c \<in> set name. \<not> isSpace c \<and> c \<noteq> CHR 0x00" and "name \<noteq> []"
    and "\<forall>c \<in> set v. \<not> isSpace c \<and> c \<noteq> CHR 0x00"
  shows "parseLine (name @ CHR '' '' # v) = (name, v)"
proof -
  have c: "cstr (name @ CHR '' '' # v) = name @ CHR '' '' # v"
    using assms by (auto simp: cstr_def intro!: takeWhile_eq_all_conv [THEN iffD2])
  obtain a n' where n: "name = a # n'" using assms(2) by (cases name) auto
  with assms(1) have a: "\<not> isSpace a" by simp
  have d: "dropWhile isSpace (name @ CHR '' '' # v) = name @ CHR '' '' # v"
    using n a by simp
  have sp: "isSpace (CHR '' '')" by (simp add: isSpace_def)
  have "takeWhile (\<lambda>c. \<not> isSpace c) (name @ CHR '' '' # v)
      = name @ takeWhile (\<lambda>c. \<not> isSpace c) (CHR '' '' # v)"
    using assms(1) by (intro takeWhile_append2) simp
  then have t: "takeWhile (\<lambda>c. \<not> isSpace c) (name @ CHR '' '' # v) = name"
    using sp by simp
  have "dropWhile (\<lambda>c. \<not> isSpace c) (name @ CHR '' '' # v)
      = dropWhile (\<lambda>c. \<not> isSpace c) (CHR '' '' # v)"
    using assms(1) by (intro dropWhile_append2) simp
  then have dw: "dropWhile (\<lambda>c. \<not> isSpace c) (name @ CHR '' '' # v) = CHR '' '' # v"
    using sp by simp
  have dv: "dropWhile isSpace v = v"
    using assms(3) by (cases v) auto
  show ?thesis
    by (simp add: parseLine_def c d t dw dv Let_def del: dropWhile_eq_Nil_conv)
qed

lemma apply_settings_line_fmt:
  assumes "LONG_MIN \<le> i" and "i \<le> LONG_MAX"
  shows "apply_settings_line (''interval '' @ fmt_d i) st = st\<lparr>st_interval := word_of_int i\<rparr>"
    and "apply_settings_line (''burstsize '' @ fmt_d i) st = st\<lparr>st_burstSize := word_of_int i\<rparr>"
    and "apply_settings_line (''lasercontinuous '' @ fmt_d i) st
           = st\<lparr>st_isLaserContinuous := (i = 1)\<rparr>"
proof -
  have v: "\<forall>c \<in> set (fmt_d i). \<not> isSpace c \<and> c \<noteq> CHR 0x00"
    using fmt_d_chars by blast
  have p1: "parseLine (''interval'' @ CHR '' '' # fmt_d i) = (''interval'', fmt_d i)"
    by (rule parseLine_name_value [OF _ _ v]) (simp_all add: isSpace_def)
  have p2: "parseLine (''burstsize'' @ CHR '' '' # fmt_d i) = (''burstsize'', fmt_d i)"
    by (rule parseLine_name_value [OF _ _ v]) (simp_all add: isSpace_def)
  have p3: "parseLine (''lasercontinuous'' @ CHR '' '' # fmt_d i) = (''lasercontinuous'', fmt_d i)"
    by (rule parseLine_name_value [OF _ _ v]) (simp_all add: isSpace_def)
  note a = atoi_fmt_d [OF assms]
  from p1 show "apply_settings_line (''interval '' @ fmt_d i) st = st\<lparr>st_interval := word_of_int i\<rparr>"
    by (simp add: apply_settings_line_def fmt_d_nonempty a)
  from p2 show "apply_settings_line (''burstsize '' @ fmt_d i) st = st\<lparr>st_burstSize := word_of_int i\<rparr>"
    by (simp add: apply_settings_line_def fmt_d_nonempty a)
  from p3 show "apply_settings_line (''lasercontinuous '' @ fmt_d i) st
           = st\<lparr>st_isLaserContinuous := (i = 1)\<rparr>"
    by (simp add: apply_settings_line_def fmt_d_nonempty a)
qed

lemma line_ok_fmt:
  assumes "LONG_MIN \<le> i" and "i \<le> LONG_MAX"
  shows "line_ok (''interval '' @ fmt_d i)" and "line_ok (''burstsize '' @ fmt_d i)"
    and "line_ok (''lasercontinuous '' @ fmt_d i)"
  using fmt_d_length [OF assms] fmt_d_chars(3,4) [of _ i]
  by (auto simp: line_ok_def BUFFER_SIZE_def)

lemma settings_text_lines:
  "settings_text interval cont nBurst
     = concat (map (\<lambda>l. l @ CRLF)
         [''interval '' @ fmt_d (sint interval), ''burstsize '' @ fmt_d (uint nBurst),
          ''lasercontinuous '' @ fmt_d (if cont then 1 else 0)]) @ []"
  by (simp add: settings_text_def)

lemma settings_ranges:
  "LONG_MIN \<le> sint (interval :: 32 word)" "sint (interval :: 32 word) \<le> LONG_MAX"
  "LONG_MIN \<le> uint (nBurst :: 8 word)" "uint (nBurst :: 8 word) \<le> LONG_MAX"
  "LONG_MIN \<le> (if cont then 1 else 0)" "(if cont then 1 else (0 :: int)) \<le> LONG_MAX"
proof -
  have "- (2 ^ 31) \<le> sint interval" "sint interval < 2 ^ 31"
    using sint_ge [of interval] sint_lt [of interval] by simp_all
  then show "LONG_MIN \<le> sint interval" "sint interval \<le> LONG_MAX"
    by (simp_all add: LONG_MIN_def LONG_MAX_def)
  have "0 \<le> uint nBurst" "uint nBurst < 256"
    using uint_lt2p [of nBurst] by simp_all
  then show "LONG_MIN \<le> uint nBurst" "uint nBurst \<le> LONG_MAX"
    unfolding LONG_MIN_def LONG_MAX_def by linarith+
  show "LONG_MIN \<le> (if cont then 1 else 0)" "(if cont then 1 else (0 :: int)) \<le> LONG_MAX"
    by (simp_all add: LONG_MIN_def LONG_MAX_def)
qed

lemma settings_text_length: "length (settings_text interval cont nBurst) < BUFFER_SIZE"
  using fmt_d_length [OF settings_ranges(1,2), of interval]
        fmt_d_length [OF settings_ranges(3,4), of nBurst]
        fmt_d_length [OF settings_ranges(5,6), of cont]
  by (simp add: settings_text_def CRLF_def BUFFER_SIZE_def)

lemma loadSettings_loop_settings_text:
  "loadSettings_loop (settings_text interval cont nBurst) st
     = \<lparr> st_interval = interval, st_isLaserContinuous = cont, st_burstSize = nBurst \<rparr>"
proof -
  have ok: "\<forall>l \<in> set [''interval '' @ fmt_d (sint interval), ''burstsize '' @ fmt_d (uint nBurst),
          ''lasercontinuous '' @ fmt_d (if cont then 1 else 0)]. line_ok l"
    using line_ok_fmt(1) [OF settings_ranges(1,2), of interval]
          line_ok_fmt(2) [OF settings_ranges(3,4), of nBurst]
          line_ok_fmt(3) [OF settings_ranges(5,6), of cont]
    by simp
  have "loadSettings_loop (settings_text interval cont nBurst) st
      = st\<lparr> st_interval := word_of_int (sint interval),
             st_burstSize := word_of_int (uint nBurst),
             st_isLaserContinuous := ((if cont then 1 else (0::int)) = 1) \<rparr>"
    unfolding settings_text_lines
    by (simp only: loadSettings_loop_lines [OF ok] foldl.simps loadSettings_loop_end
          apply_settings_line_fmt(1) [OF settings_ranges(1,2)]
          apply_settings_line_fmt(2) [OF settings_ranges(3,4)]
          apply_settings_line_fmt(3) [OF settings_ranges(5,6)])
  then show ?thesis by (cases st) simp
qed

lemma saveSettings_True:
  assumes "saveSettings interval cont nBurst io fs = (True, fs')"
  shows "initialized fs'"
    and "files fs' SETTINGS_FILENAME
           = Some (overwrite_from_start (settings_text interval cont nBurst)
                     (file_bytes fs SETTINGS_FILENAME))"
proof -
  have full: "write_returns (write_res io) (settings_text interval cont nBurst)
        = of_nat (length (settings_text interval cont nBurst))
      \<Longrightarrow> stored_bytes (write_res io) (settings_text interval cont nBurst)
        = settings_text interval cont nBurst"
    using settings_text_length by (rule write_returns_full [rotated])
  from assms show "initialized fs'"
    by (auto simp: saveSettings_def Let_def sd_create_def split: if_splits)
  from assms full show "files fs' SETTINGS_FILENAME
           = Some (overwrite_from_start (settings_text interval cont nBurst)
                     (file_bytes fs SETTINGS_FILENAME))"
    by (auto simp: saveSettings_def Let_def sd_create_def sd_exists_def file_bytes_def
          split: if_splits)
qed

text \<open>
  Saving and loading on a card where the settings file is missing, or no longer than the
  text that is written: all three values come back, whatever they are.
\<close>

lemma settings_round_trip:
  assumes "saveSettings interval cont nBurst io fs = (True, fs')"
    and "length (file_bytes fs SETTINGS_FILENAME) \<le> length (settings_text interval cont nBurst)"
    and "open_ok io'"
  shows "loadSettings io' fs' st
           = (True, \<lparr> st_interval = interval, st_isLaserContinuous = cont,
                      st_burstSize = nBurst \<rparr>)"
  using saveSettings_True [OF assms(1)] assms(2,3)
  by (simp add: loadSettings_def overwrite_from_start_def loadSettings_loop_settings_text)

text \<open>
  Claim C5. Whatever the three values, a successful \<^verbatim>\<open>saveSettings\<close> followed by
  \<^verbatim>\<open>loadSettings\<close> gives the same values back. It does when the settings file is new or
  no longer than the text written (\<open>settings_round_trip\<close> above). It does not in
  general: \<^verbatim>\<open>saveSettings\<close> opens the file without truncating it, so the end of a longer
  file stays behind the new text, and \<^verbatim>\<open>loadSettings\<close> reads the settings in it after the
  new ones. On a card whose settings file was written by hand with two comment lines
  first, saving 1000 ms, normal laser mode and burst size 1 succeeds, and loading then
  returns 500 ms, continuous mode and burst size 3.
\<close>

theorem settings_not_restored:
  "saveSettings 1000 False 1 io_ok hand_written_card
     = (True, snd (saveSettings 1000 False 1 io_ok hand_written_card)) \<and>
   loadSettings io_ok (snd (saveSettings 1000 False 1 io_ok hand_written_card)) default_settings
     = (True, \<lparr> st_interval = 500, st_isLaserContinuous = True, st_burstSize = 3 \<rparr>)"
proof -
  have "loadSettings_loop
          (overwrite_from_start (settings_text 1000 False 1) hand_written_settings)
          default_settings
        = \<lparr> st_interval = 500, st_isLaserContinuous = True, st_burstSize = 3 \<rparr>"
    unfolding overwritten_sample
    by (subst loadSettings_loop_lines)
       (simp_all add: line_ok_def BUFFER_SIZE_def loadSettings_loop_end apply_lines_sample
          default_settings_def)
  then show ?thesis
    apply (simp only: saveSettings_sample snd_conv)
    apply (simp add: loadSettings_def hand_written_card_def empty_card_def io_ok_def)
    done
qed

text \<open>The interval that comes back is the one of the old file.\<close>

theorem settings_not_restored_witness:
  "st_interval (snd (loadSettings io_ok (snd (saveSettings 1000 False 1 io_ok hand_written_card))
                       default_settings)) = 500 \<and>
   fst (saveSettings 1000 False 1 io_ok hand_written_card)"
proof -
  from settings_not_restored
  have "loadSettings io_ok (snd (saveSettings 1000 False 1 io_ok hand_written_card))
          default_settings
        = (True, \<lparr> st_interval = 500, st_isLaserContinuous = True, st_burstSize = 3 \<rparr>)"
    and "saveSettings 1000 False 1 io_ok hand_written_card
        = (True, snd (saveSettings 1000 False 1 io_ok hand_written_card))"
    by simp_all
  then show ?thesis by (simp add: prod_eq_iff)
qed


end
